theory Spec2Isabelle
  imports Main "HOL-Library.Word" "HOL-Library.Sublist"
begin

unbundle bit_operations_syntax

chapter \<open>rep-cli: the traffic store, the live buffer and chain reconstruction\<close>

text \<open>
  A shallow embedding of the Go sources: \<^verbatim>\<open>internal/store\<close> (types.go, store.go,
  hash.go, headers.go), the native messaging host \<^verbatim>\<open>cmd/host/main.go\<close> and the chain
  command. Go strings are byte sequences and are modelled as \<^typ>\<open>string\<close>; Go \<^verbatim>\<open>int\<close>
  and \<^verbatim>\<open>int64\<close> values are modelled as \<^typ>\<open>int\<close> where the code only compares,
  decrements a positive value or prints them. A nil slice and an empty slice are both the
  empty list, a nil map and an empty map are both the empty map: the code modelled here
  only ranges over them, indexes them and takes their length. Where the code or the JSON
  encoder tells nil from empty, the model has an option.
\<close>

section \<open>Go library functions used by the sources\<close>

subsection \<open>\<^verbatim>\<open>crypto/sha256\<close>: \<^verbatim>\<open>Sum256\<close> (FIPS 180-4)\<close>

type_synonym byte = "8 word"
type_synonym w32 = "32 word"
type_synonym sha_state = "w32 \<times> w32 \<times> w32 \<times> w32 \<times> w32 \<times> w32 \<times> w32 \<times> w32"

text \<open>The round constants and the initial hash value, in decimal.\<close>

definition sha256_K :: "w32 list" where
  "sha256_K = [
    1116352408, 1899447441, 3049323471, 3921009573, 961987163, 1508970993, 2453635748, 2870763221,
    3624381080, 310598401, 607225278, 1426881987, 1925078388, 2162078206, 2614888103, 3248222580,
    3835390401, 4022224774, 264347078, 604807628, 770255983, 1249150122, 1555081692, 1996064986,
    2554220882, 2821834349, 2952996808, 3210313671, 3336571891, 3584528711, 113926993, 338241895,
    666307205, 773529912, 1294757372, 1396182291, 1695183700, 1986661051, 2177026350, 2456956037,
    2730485921, 2820302411, 3259730800, 3345764771, 3516065817, 3600352804, 4094571909, 275423344,
    430227734, 506948616, 659060556, 883997877, 958139571, 1322822218, 1537002063, 1747873779,
    1955562222, 2024104815, 2227730452, 2361852424, 2428436474, 2756734187, 3204031479, 3329325298]"

definition sha256_init :: sha_state where
  "sha256_init = (1779033703, 3144134277, 1013904242, 2773480762,
                  1359893119, 2600822924, 528734635, 1541459225)"

definition be32 :: "byte list \<Rightarrow> w32" where
  "be32 bs = foldl (\<lambda>acc b. push_bit 8 acc OR ucast b) 0 (take 4 bs)"

fun chunks :: "nat \<Rightarrow> 'a list \<Rightarrow> 'a list list" where
  "chunks n [] = []"
| "chunks n (x # xs) = (if n = 0 then [] else take n (x # xs) # chunks n (drop n (x # xs)))"

definition be_bytes :: "nat \<Rightarrow> 'a::len word \<Rightarrow> byte list" where
  "be_bytes k v = map (\<lambda>i. ucast (drop_bit (8 * (k - 1 - i)) v)) [0..<k]"

definition sha256_pad :: "byte list \<Rightarrow> byte list" where
  "sha256_pad m =
     (let l = length m; z = (119 - l mod 64) mod 64
      in m @ [0x80] @ replicate z 0 @ be_bytes 8 (word_of_nat (8 * l) :: 64 word))"

definition ssig0 :: "w32 \<Rightarrow> w32" where
  "ssig0 x = word_rotr 7 x XOR word_rotr 18 x XOR drop_bit 3 x"
definition ssig1 :: "w32 \<Rightarrow> w32" where
  "ssig1 x = word_rotr 17 x XOR word_rotr 19 x XOR drop_bit 10 x"
definition bsig0 :: "w32 \<Rightarrow> w32" where
  "bsig0 x = word_rotr 2 x XOR word_rotr 13 x XOR word_rotr 22 x"
definition bsig1 :: "w32 \<Rightarrow> w32" where
  "bsig1 x = word_rotr 6 x XOR word_rotr 11 x XOR word_rotr 25 x"

fun sha256_schedule :: "nat \<Rightarrow> w32 list \<Rightarrow> w32 list" where
  "sha256_schedule 0 w = w"
| "sha256_schedule (Suc n) w =
     (let t = length w
      in sha256_schedule n
           (w @ [ssig1 (w ! (t - 2)) + w ! (t - 7) + ssig0 (w ! (t - 15)) + w ! (t - 16)]))"

definition sha256_round :: "sha_state \<Rightarrow> (w32 \<times> w32) \<Rightarrow> sha_state" where
  "sha256_round s kw =
     (case s of (a, b, c, d, e, f, g, h) \<Rightarrow>
        let t1 = h + bsig1 e + ((e AND f) XOR (NOT e AND g)) + fst kw + snd kw;
            t2 = bsig0 a + ((a AND b) XOR (a AND c) XOR (b AND c))
        in (t1 + t2, a, b, c, d + t1, e, f, g))"

definition sha256_add :: "sha_state \<Rightarrow> sha_state \<Rightarrow> sha_state" where
  "sha256_add s t =
     (case s of (a, b, c, d, e, f, g, h) \<Rightarrow>
      case t of (a', b', c', d', e', f', g', h') \<Rightarrow>
        (a + a', b + b', c + c', d + d', e + e', f + f', g + g', h + h'))"

definition sha256_block :: "sha_state \<Rightarrow> byte list \<Rightarrow> sha_state" where
  "sha256_block hs blk =
     (let w = sha256_schedule 48 (map be32 (chunks 4 blk))
      in sha256_add hs (foldl sha256_round hs (zip sha256_K w)))"

definition Sum256 :: "byte list \<Rightarrow> byte list" where
  "Sum256 m =
     (case foldl sha256_block sha256_init (chunks 64 (sha256_pad m)) of
        (a, b, c, d, e, f, g, h) \<Rightarrow>
          concat (map (\<lambda>w. be_bytes 4 w) [a, b, c, d, e, f, g, h]))"

definition hex_digit :: "nat \<Rightarrow> char" where
  "hex_digit n = ''0123456789abcdef'' ! (n mod 16)"

definition hex_bytes :: "byte list \<Rightarrow> string" where
  "hex_bytes bs = concat (map (\<lambda>b. [hex_digit (unat b div 16), hex_digit (unat b mod 16)]) bs)"

definition bytes_of :: "string \<Rightarrow> byte list" where
  "bytes_of s = map (\<lambda>c. of_nat (of_char c)) s"



subsection \<open>\<^verbatim>\<open>fmt\<close>: the verbs \<^verbatim>\<open>%d\<close> and \<^verbatim>\<open>%x\<close>\<close>

fun dec_nat :: "nat \<Rightarrow> string" where
  "dec_nat n =
     (if n < 10 then [''0123456789'' ! n]
      else dec_nat (n div 10) @ [''0123456789'' ! (n mod 10)])"

declare dec_nat.simps [simp del]

definition fmt_d :: "int \<Rightarrow> string" where
  "fmt_d i = (if i < 0 then CHR ''-'' # dec_nat (nat (- i)) else dec_nat (nat i))"

subsection \<open>\<^verbatim>\<open>strings\<close>\<close>

definition HasPrefix :: "string \<Rightarrow> string \<Rightarrow> bool" where
  "HasPrefix s p = (take (length p) s = p)"

fun Contains :: "string \<Rightarrow> string \<Rightarrow> bool" where
  "Contains [] substr = (substr = [])"
| "Contains (c # cs) substr = (HasPrefix (c # cs) substr \<or> Contains cs substr)"

text \<open>Lower case of an ASCII letter.\<close>

definition lower_ascii :: "char \<Rightarrow> char" where
  "lower_ascii c =
     (case map_of (zip ''ABCDEFGHIJKLMNOPQRSTUVWXYZ'' ''abcdefghijklmnopqrstuvwxyz'') c of
        Some l \<Rightarrow> l | None \<Rightarrow> c)"

subsection \<open>\<^verbatim>\<open>unicode/utf8\<close>\<close>

text \<open>
  \<^verbatim>\<open>utf8.DecodeRuneInString\<close>, as far as the JSON encoder uses it: the number of bytes of
  the well-formed encoding that starts the string, or 0 when the string is empty or does
  not start with one (the library then returns \<^verbatim>\<open>RuneError\<close> with size 1). The ranges of
  the second byte are those of the library's table: overlong forms, surrogates and code
  points above U+10FFFF are not well-formed.
\<close>

definition byte_in :: "nat \<Rightarrow> nat \<Rightarrow> string \<Rightarrow> nat \<Rightarrow> bool" where
  "byte_in lo hi s i = (i < length s \<and> lo \<le> of_char (s ! i) \<and> (of_char (s ! i) :: nat) \<le> hi)"

definition rune_size :: "string \<Rightarrow> nat" where
  "rune_size s =
     (if s = [] then 0
      else let b = (of_char (s ! 0) :: nat) in
        if b < 0x80 then 1
        else if 0xC2 \<le> b \<and> b \<le> 0xDF then (if byte_in 0x80 0xBF s 1 then 2 else 0)
        else if b = 0xE0 then (if byte_in 0xA0 0xBF s 1 \<and> byte_in 0x80 0xBF s 2 then 3 else 0)
        else if b = 0xED then (if byte_in 0x80 0x9F s 1 \<and> byte_in 0x80 0xBF s 2 then 3 else 0)
        else if 0xE1 \<le> b \<and> b \<le> 0xEF then
          (if byte_in 0x80 0xBF s 1 \<and> byte_in 0x80 0xBF s 2 then 3 else 0)
        else if b = 0xF0 then
          (if byte_in 0x90 0xBF s 1 \<and> byte_in 0x80 0xBF s 2 \<and> byte_in 0x80 0xBF s 3 then 4 else 0)
        else if 0xF1 \<le> b \<and> b \<le> 0xF3 then
          (if byte_in 0x80 0xBF s 1 \<and> byte_in 0x80 0xBF s 2 \<and> byte_in 0x80 0xBF s 3 then 4 else 0)
        else if b = 0xF4 then
          (if byte_in 0x80 0x8F s 1 \<and> byte_in 0x80 0xBF s 2 \<and> byte_in 0x80 0xBF s 3 then 4 else 0)
        else 0)"

text \<open>\<^verbatim>\<open>utf8.ValidString\<close>.\<close>

fun valid_utf8 :: "string \<Rightarrow> bool" where
  "valid_utf8 [] = True"
| "valid_utf8 (c # cs) =
     (rune_size (c # cs) \<noteq> 0 \<and> valid_utf8 (drop (rune_size (c # cs) - 1) cs))"

subsection \<open>\<^verbatim>\<open>net/url\<close>, \<^verbatim>\<open>regexp\<close> and the Unicode-aware functions of \<^verbatim>\<open>strings\<close>\<close>

text \<open>
  The fields of \<^verbatim>\<open>url.URL\<close> that the store reads.
\<close>

record URL =
  Host :: string
  Path :: string
  RawQuery :: string

text \<open>
  These library functions are parameters of the model: \<^verbatim>\<open>strings.EqualFold\<close>,
  \<^verbatim>\<open>strings.ToLower\<close>, \<^verbatim>\<open>strings.TrimSpace\<close>, \<^verbatim>\<open>regexp.Compile\<close> (a compiled expression is
  its \<^verbatim>\<open>MatchString\<close>; \<^const>\<open>None\<close> is a compile error) and \<^verbatim>\<open>url.Parse\<close> (\<^const>\<open>None\<close> is a
  parse error). Every theorem below holds for all of their behaviours.
\<close>

record golib =
  EqualFold :: "string \<Rightarrow> string \<Rightarrow> bool"
  ToLower :: "string \<Rightarrow> string"
  TrimSpace :: "string \<Rightarrow> string"
  regexp_Compile :: "string \<Rightarrow> (string \<Rightarrow> bool) option"
  url_Parse :: "string \<Rightarrow> URL option"

section \<open>The data model (types.go, headers.go)\<close>

text \<open>\<^verbatim>\<open>type HeaderMap map[string][]string\<close>\<close>

type_synonym HeaderMap = "string \<rightharpoonup> string list"

record Response =
  Status :: int
  Headers :: HeaderMap
  Body :: string

record Request =
  ID :: string
  OriginalID :: string
  Method :: string
  URL :: string
  PageURL :: string
  ResourceType :: string
  Initiator :: string
  Headers :: HeaderMap
  Body :: string
  Response :: "Response option"
  ResponseEncoding :: string
  Timestamp :: int
  Domain :: string
  Path :: string

text \<open>The zero value \<^verbatim>\<open>Request{}\<close>.\<close>

definition Request_zero :: Request where
  "Request_zero =
     \<lparr>Request.ID = [], OriginalID = [], Method = [], URL = [], PageURL = [],
      ResourceType = [], Initiator = [], Headers = Map.empty, Body = [], Response = None,
      ResponseEncoding = [], Timestamp = 0, Domain = [], Path = []\<rparr>"

record Session =
  ID :: string
  Timestamp :: int
  Note :: string
  Requests :: "Request list"

text \<open>
  \<^verbatim>\<open>map[string]bool\<close>: reading a key that is absent gives \<^verbatim>\<open>false\<close>.
\<close>

definition lookup_bool :: "(string \<rightharpoonup> bool) \<Rightarrow> string \<Rightarrow> bool" where
  "lookup_bool m k = (m k = Some True)"

record Store =
  Sessions :: "Session list"
  IgnoredDomains :: "string \<rightharpoonup> bool"
  PrimaryDomains :: "string \<rightharpoonup> bool"
  Requests :: "Request list"
  LastImport :: int

record FilterOptions =
  Domain :: string
  Domains :: "string list"
  Method :: string
  Methods :: "string list"
  Status :: int
  StatusRange :: string
  StatusRanges :: "string list"
  ResourceTypes :: "string list"
  Pattern :: string
  ExcludeIgnored :: bool
  PrimaryOnly :: bool
  Limit :: int
  Offset :: int

text \<open>The zero value \<^verbatim>\<open>FilterOptions{}\<close>.\<close>

definition FilterOptions_zero :: FilterOptions where
  "FilterOptions_zero =
     \<lparr>Domain = [], Domains = [], Method = [], Methods = [], Status = 0, StatusRange = [],
      StatusRanges = [], ResourceTypes = [], Pattern = [], ExcludeIgnored = False,
      PrimaryOnly = False, Limit = 0, Offset = 0\<rparr>"

section \<open>Header decoding (headers.go)\<close>

subsection \<open>\<^verbatim>\<open>encoding/json\<close>: decoding a JSON value into the three Go types\<close>

text \<open>
  \<^verbatim>\<open>UnmarshalJSON\<close> is called by the decoder with the text of one JSON value; the model
  takes the value itself.
\<close>

datatype json =
  JNull
| JBool bool
| JNumber string
| JString string
| JArray "json list"
| JObject "(string \<times> json) list"

text \<open>
  How \<^verbatim>\<open>json.Unmarshal\<close> decodes into a \<^verbatim>\<open>string\<close> that holds \<open>cur\<close>: a JSON string replaces
  it, \<^verbatim>\<open>null\<close> leaves it, and any other value is a type error (\<^const>\<open>None\<close>).
\<close>

fun decode_string :: "json \<Rightarrow> string \<Rightarrow> string option" where
  "decode_string (JString s) cur = Some s"
| "decode_string JNull cur = Some cur"
| "decode_string _ cur = None"

text \<open>Into a fresh \<^verbatim>\<open>[]string\<close>: \<^verbatim>\<open>null\<close> gives the nil slice, an array is decoded by element.\<close>

fun decode_strings :: "json \<Rightarrow> string list option" where
  "decode_strings JNull = Some []"
| "decode_strings (JArray xs) = those (map (\<lambda>x. decode_string x []) xs)"
| "decode_strings _ = None"

text \<open>
  Into a \<^verbatim>\<open>map[string][]string\<close> and into a \<^verbatim>\<open>map[string]string\<close>: \<^verbatim>\<open>null\<close> leaves the nil map,
  an object sets its keys in order (a repeated key is overwritten), anything else is a
  type error.
\<close>

fun decode_multi_fields :: "(string \<times> json) list \<Rightarrow> HeaderMap \<Rightarrow> HeaderMap option" where
  "decode_multi_fields [] m = Some m"
| "decode_multi_fields ((k, v) # kvs) m =
     (case decode_strings v of
        None \<Rightarrow> None
      | Some vs \<Rightarrow> decode_multi_fields kvs (m(k \<mapsto> vs)))"

fun decode_multi :: "json \<Rightarrow> HeaderMap option" where
  "decode_multi JNull = Some Map.empty"
| "decode_multi (JObject kvs) = decode_multi_fields kvs Map.empty"
| "decode_multi _ = None"

fun decode_single_fields :: "(string \<times> json) list \<Rightarrow> (string \<rightharpoonup> string)
                             \<Rightarrow> (string \<rightharpoonup> string) option" where
  "decode_single_fields [] m = Some m"
| "decode_single_fields ((k, v) # kvs) m =
     (case decode_string v [] of
        None \<Rightarrow> None
      | Some s \<Rightarrow> decode_single_fields kvs (m(k \<mapsto> s)))"

fun decode_single :: "json \<Rightarrow> (string \<rightharpoonup> string) option" where
  "decode_single JNull = Some Map.empty"
| "decode_single (JObject kvs) = decode_single_fields kvs Map.empty"
| "decode_single _ = None"

text \<open>
  Into a \<^verbatim>\<open>HeaderKV\<close> (a pair of name and value): an object sets the field whose JSON name
  (\<^verbatim>\<open>name\<close>, \<^verbatim>\<open>value\<close>) equals the key up to the case of letters and skips every other key;
  \<^verbatim>\<open>null\<close> leaves the struct. Into a \<^verbatim>\<open>[]HeaderKV\<close>: \<^verbatim>\<open>null\<close> or an array of these.
\<close>

definition field_matches :: "string \<Rightarrow> string \<Rightarrow> bool" where
  "field_matches key name = (map lower_ascii key = map lower_ascii name)"

fun decode_HeaderKV_fields :: "(string \<times> json) list \<Rightarrow> string \<times> string
                               \<Rightarrow> (string \<times> string) option" where
  "decode_HeaderKV_fields [] kv = Some kv"
| "decode_HeaderKV_fields ((k, v) # kvs) (name, val) =
     (if field_matches k ''name'' then
        (case decode_string v name of
           None \<Rightarrow> None
         | Some s \<Rightarrow> decode_HeaderKV_fields kvs (s, val))
      else if field_matches k ''value'' then
        (case decode_string v val of
           None \<Rightarrow> None
         | Some s \<Rightarrow> decode_HeaderKV_fields kvs (name, s))
      else decode_HeaderKV_fields kvs (name, val))"

fun decode_HeaderKV :: "json \<Rightarrow> (string \<times> string) option" where
  "decode_HeaderKV JNull = Some ([], [])"
| "decode_HeaderKV (JObject kvs) = decode_HeaderKV_fields kvs ([], [])"
| "decode_HeaderKV _ = None"

fun decode_list :: "json \<Rightarrow> (string \<times> string) list option" where
  "decode_list JNull = Some []"
| "decode_list (JArray xs) = those (map decode_HeaderKV xs)"
| "decode_list _ = None"

subsection \<open>\<^verbatim>\<open>HeaderMap.UnmarshalJSON\<close>\<close>

text \<open>The loop over the decoded pairs: \<open>converted\<close> is the map built so far.\<close>

fun convert_list :: "(string \<times> string) list \<Rightarrow> HeaderMap \<Rightarrow> HeaderMap" where
  "convert_list [] converted = converted"
| "convert_list ((name, val) # items) converted =
     (if name = [] then convert_list items converted
      else convert_list items
             (converted(name \<mapsto> (case converted name of None \<Rightarrow> [] | Some vs \<Rightarrow> vs) @ [val])))"

definition UnmarshalJSON :: "json \<Rightarrow> string + HeaderMap" where
  "UnmarshalJSON data =
     (if data = JNull then Inr Map.empty
      else case decode_multi data of
        Some multi \<Rightarrow> Inr multi
      | None \<Rightarrow>
          (case decode_single data of
             Some single \<Rightarrow> Inr (\<lambda>k. map_option (\<lambda>v. [v]) (single k))
           | None \<Rightarrow>
               (case decode_list data of
                  Some list \<Rightarrow> Inr (convert_list list Map.empty)
                | None \<Rightarrow> Inl ''unsupported header format'')))"

text \<open>
  The order of attempts as the specification words it, for comparison: the map of single
  values first, then the map of lists, then the list of pairs.
\<close>

definition UnmarshalJSON_single_first :: "json \<Rightarrow> string + HeaderMap" where
  "UnmarshalJSON_single_first data =
     (case decode_single data of
        Some single \<Rightarrow> Inr (\<lambda>k. map_option (\<lambda>v. [v]) (single k))
      | None \<Rightarrow>
          (case decode_multi data of
             Some multi \<Rightarrow> Inr multi
           | None \<Rightarrow>
               (case decode_list data of
                  Some list \<Rightarrow> Inr (convert_list list Map.empty)
                | None \<Rightarrow> Inl ''unsupported header format'')))"

text \<open>
  What the encoder of \<^verbatim>\<open>encoding/json\<close> writes for a string, read back as a JSON value:
  every byte that does not start a well-formed UTF-8 encoding is replaced by U+FFFD
  (the bytes EF BF BD); everything else the escapes of the encoder give back unchanged.
\<close>

fun coerce_utf8 :: "string \<Rightarrow> string" where
  "coerce_utf8 [] = []"
| "coerce_utf8 (c # cs) =
     (if rune_size (c # cs) = 0 then [CHR 0xEF, CHR 0xBF, CHR 0xBD] @ coerce_utf8 cs
      else take (rune_size (c # cs)) (c # cs) @ coerce_utf8 (drop (rune_size (c # cs) - 1) cs))"

text \<open>
  \<^verbatim>\<open>json.Marshal\<close> of a header map, given by its entries in the order of their keys; a nil
  slice (\<^const>\<open>None\<close>) is written as \<^verbatim>\<open>null\<close>, and so is the nil map. Keys and values are
  written by the string encoder.
\<close>

definition Marshal_values :: "string list option \<Rightarrow> json" where
  "Marshal_values v =
     (case v of None \<Rightarrow> JNull | Some vs \<Rightarrow> JArray (map (\<lambda>s. JString (coerce_utf8 s)) vs))"

definition Marshal_HeaderMap :: "(string \<times> string list option) list option \<Rightarrow> json" where
  "Marshal_HeaderMap h =
     (case h of
        None \<Rightarrow> JNull
      | Some kvs \<Rightarrow> JObject (map (\<lambda>(k, v). (coerce_utf8 k, Marshal_values v)) kvs))"

text \<open>Every key and every value of the entries is valid UTF-8.\<close>

definition valid_entries :: "(string \<times> string list option) list \<Rightarrow> bool" where
  "valid_entries kvs =
     list_all (\<lambda>(k, v). valid_utf8 k \<and> (case v of None \<Rightarrow> True | Some vs \<Rightarrow> list_all valid_utf8 vs))
       kvs"

text \<open>The header map with these entries, in the model's terms.\<close>

definition HeaderMap_of :: "(string \<times> string list option) list option \<Rightarrow> HeaderMap" where
  "HeaderMap_of h =
     (case h of
        None \<Rightarrow> Map.empty
      | Some kvs \<Rightarrow> map_of (map (\<lambda>(k, v). (k, case v of None \<Rightarrow> [] | Some vs \<Rightarrow> vs)) kvs))"

section \<open>Fingerprinting (hash.go)\<close>

text \<open>
  The functions take a \<^verbatim>\<open>*Request\<close>; the nil pointer is \<^const>\<open>None\<close>.
\<close>

definition RequestHash :: "Request option \<Rightarrow> string" where
  "RequestHash req =
     (case req of
        None \<Rightarrow> []
      | Some r \<Rightarrow>
          let raw = Request.Method r @ ''|'' @ Request.URL r @ ''|'' @ Request.Body r @ ''|''
                      @ fmt_d (Request.Timestamp r)
          in hex_bytes (Sum256 (bytes_of raw)))"

definition isStableID :: "Request option \<Rightarrow> bool" where
  "isStableID req =
     (case req of
        None \<Rightarrow> False
      | Some r \<Rightarrow>
          if Request.ID r = [] then False
          else if Request.OriginalID r \<noteq> [] then True
          else HasPrefix (Request.ID r) ''h_'')"

definition RequestFingerprint :: "Request option \<Rightarrow> string" where
  "RequestFingerprint req =
     (case req of
        None \<Rightarrow> []
      | Some r \<Rightarrow> if isStableID req then Request.ID r else RequestHash req)"

section \<open>The persistent store (store.go)\<close>

definition NewStore :: Store where
  "NewStore =
     \<lparr>Sessions = [], IgnoredDomains = Map.empty, PrimaryDomains = Map.empty,
      Requests = [], LastImport = 0\<rparr>"

definition NewTempStore :: "golib \<Rightarrow> Request list \<Rightarrow> Store" where
  "NewTempStore L requests =
     NewStore\<lparr>Store.Requests :=
       map (\<lambda>req. case url_Parse L (Request.URL req) of
                    Some parsed \<Rightarrow> req\<lparr>Request.Domain := Host parsed,
                                        Request.Path := URL.Path parsed\<rparr>
                  | None \<Rightarrow> req) requests\<rparr>"

definition ComputeRequestFields :: "golib \<Rightarrow> Request \<Rightarrow> Request" where
  "ComputeRequestFields L req =
     (case url_Parse L (Request.URL req) of
        Some parsedURL \<Rightarrow>
          req\<lparr>Request.Domain := Host parsedURL,
              Request.Path := (if RawQuery parsedURL \<noteq> []
                               then URL.Path parsedURL @ ''?'' @ RawQuery parsedURL
                               else URL.Path parsedURL)\<rparr>
      | None \<Rightarrow> req)"

text \<open>
  What \<^verbatim>\<open>Load\<close> takes from its environment: \<^verbatim>\<open>GetStoreFilePath\<close>, \<^verbatim>\<open>os.ReadFile\<close> (with
  \<^verbatim>\<open>os.IsNotExist\<close> of its error), \<^verbatim>\<open>sonic.Unmarshal\<close> into the store it is given, and the
  clock, read as \<^verbatim>\<open>time.Now().Format("20060102")\<close> and \<^verbatim>\<open>time.Now().UnixMilli()\<close>.
\<close>

datatype read_error = NotExist | ReadError string

record loadenv =
  GetStoreFilePath :: "string + string"
  ReadFile :: "string \<Rightarrow> read_error + string"
  sonic_Unmarshal :: "string \<Rightarrow> Store \<Rightarrow> string + Store"
  today_20060102 :: string
  now_UnixMilli :: int

text \<open>
  The migration of the legacy format, the \<^verbatim>\<open>if\<close> statement of \<^verbatim>\<open>Load\<close>. Initialising the
  nil maps and the nil session list before it leaves the model's store as it is.
\<close>

definition migrate :: "golib \<Rightarrow> loadenv \<Rightarrow> Store \<Rightarrow> Store" where
  "migrate L env store =
     (if length (Store.Requests store) > 0 \<and> length (Sessions store) = 0 then
        let session = \<lparr>Session.ID = ''migrated-'' @ today_20060102 env,
                       Timestamp = now_UnixMilli env,
                       Note = ''Auto-migrated from old format'',
                       Requests = map (ComputeRequestFields L) (Store.Requests store)\<rparr>
        in store\<lparr>Sessions := Sessions store @ [session], Store.Requests := [], LastImport := 0\<rparr>
      else store)"

definition Load :: "golib \<Rightarrow> loadenv \<Rightarrow> string + Store" where
  "Load L env =
     (case GetStoreFilePath env of
        Inl err \<Rightarrow> Inl err
      | Inr filePath \<Rightarrow>
          (case ReadFile env filePath of
             Inl NotExist \<Rightarrow> Inr NewStore
           | Inl (ReadError err) \<Rightarrow> Inl (''failed to read store: '' @ err)
           | Inr data \<Rightarrow>
               (case sonic_Unmarshal env data NewStore of
                  Inl err \<Rightarrow> Inl (''failed to parse store: '' @ err)
                | Inr store \<Rightarrow>
                    let store1 = migrate L env store
                    in Inr (store1\<lparr>Sessions :=
                              map (\<lambda>sess. sess\<lparr>Session.Requests :=
                                      map (ComputeRequestFields L) (Session.Requests sess)\<rparr>)
                                  (Sessions store1)\<rparr>))))"

text \<open>\<^verbatim>\<open>AddSession\<close> returns the new session and the store it was appended to.\<close>

definition AddSession :: "golib \<Rightarrow> int \<Rightarrow> Store \<Rightarrow> string \<Rightarrow> string \<Rightarrow> Request list
                          \<Rightarrow> Session \<times> Store" where
  "AddSession L now s sid note requests =
     (let session = \<lparr>Session.ID = sid, Timestamp = now, Note = note,
                     Requests = map (ComputeRequestFields L) requests\<rparr>
      in (session, s\<lparr>Sessions := Sessions s @ [session]\<rparr>))"

subsection \<open>\<^verbatim>\<open>Filter\<close>\<close>

text \<open>The \<^verbatim>\<open>switch\<close> of the single status range: does the request get skipped?\<close>

definition StatusRange_skips :: "string \<Rightarrow> int \<Rightarrow> bool" where
  "StatusRange_skips sr status =
     (if sr = ''2xx'' then status < 200 \<or> status \<ge> 300
      else if sr = ''3xx'' then status < 300 \<or> status \<ge> 400
      else if sr = ''4xx'' then status < 400 \<or> status \<ge> 500
      else if sr = ''5xx'' then status < 500 \<or> status \<ge> 600
      else False)"

text \<open>The \<^verbatim>\<open>switch\<close> in the loop over the status ranges: does it set \<^verbatim>\<open>matched\<close>?\<close>

definition StatusRanges_matches :: "string \<Rightarrow> int \<Rightarrow> bool" where
  "StatusRanges_matches sr status =
     (if sr = ''2xx'' then status \<ge> 200 \<and> status < 300
      else if sr = ''3xx'' then status \<ge> 300 \<and> status < 400
      else if sr = ''4xx'' then status \<ge> 400 \<and> status < 500
      else if sr = ''5xx'' then status \<ge> 500 \<and> status < 600
      else False)"

text \<open>
  The body of the loop of \<^verbatim>\<open>Filter\<close> up to the offset: \<^const>\<open>True\<close> when no \<^verbatim>\<open>continue\<close> is
  taken, in the order of the source.
\<close>

definition Filter_match :: "golib \<Rightarrow> Store \<Rightarrow> FilterOptions \<Rightarrow> Request \<Rightarrow> bool" where
  "Filter_match L s opts req =
     (let pattern = TrimSpace L (Pattern opts)
      in \<not> (ExcludeIgnored opts \<and> lookup_bool (IgnoredDomains s) (Request.Domain req))
       \<and> \<not> (PrimaryOnly opts \<and> \<not> lookup_bool (PrimaryDomains s) (Request.Domain req))
       \<and> \<not> (FilterOptions.Domain opts \<noteq> []
              \<and> \<not> EqualFold L (Request.Domain req) (FilterOptions.Domain opts))
       \<and> \<not> (length (Domains opts) > 0
              \<and> \<not> list_ex (\<lambda>d. EqualFold L (Request.Domain req) d) (Domains opts))
       \<and> \<not> (FilterOptions.Method opts \<noteq> []
              \<and> \<not> EqualFold L (Request.Method req) (FilterOptions.Method opts))
       \<and> \<not> (length (Methods opts) > 0
              \<and> \<not> list_ex (\<lambda>m. EqualFold L (Request.Method req) m) (Methods opts))
       \<and> \<not> (FilterOptions.Status opts \<noteq> 0
              \<and> (case Response req of
                    None \<Rightarrow> True
                  | Some resp \<Rightarrow> Response.Status resp \<noteq> FilterOptions.Status opts))
       \<and> \<not> (StatusRange opts \<noteq> []
              \<and> (case Response req of
                    None \<Rightarrow> False
                  | Some resp \<Rightarrow> StatusRange_skips (StatusRange opts) (Response.Status resp)))
       \<and> \<not> (length (StatusRanges opts) > 0
              \<and> (case Response req of
                    None \<Rightarrow> False
                  | Some resp \<Rightarrow>
                      \<not> list_ex (\<lambda>sr. StatusRanges_matches sr (Response.Status resp))
                           (StatusRanges opts)))
       \<and> \<not> (length (ResourceTypes opts) > 0
              \<and> \<not> list_ex (\<lambda>rt. EqualFold L (ResourceType req) rt) (ResourceTypes opts))
       \<and> \<not> (pattern \<noteq> []
              \<and> (case regexp_Compile L pattern of
                    Some patternRE \<Rightarrow> \<not> patternRE (Request.URL req)
                  | None \<Rightarrow> \<not> Contains (ToLower L (Request.URL req)) (ToLower L pattern))))"

text \<open>
  The loop: \<open>offset\<close> is \<^verbatim>\<open>opts.Offset\<close>, which the loop decrements, and \<open>result\<close> the slice
  built so far.
\<close>

fun Filter_loop :: "golib \<Rightarrow> Store \<Rightarrow> FilterOptions \<Rightarrow> int \<Rightarrow> Request list \<Rightarrow> Request list
                    \<Rightarrow> Request list" where
  "Filter_loop L s opts offset result [] = result"
| "Filter_loop L s opts offset result (req # rest) =
     (if \<not> Filter_match L s opts req then Filter_loop L s opts offset result rest
      else if offset > 0 then Filter_loop L s opts (offset - 1) result rest
      else if Limit opts > 0 \<and> int (length (result @ [req])) \<ge> Limit opts then result @ [req]
      else Filter_loop L s opts offset (result @ [req]) rest)"

definition Filter :: "golib \<Rightarrow> Store \<Rightarrow> FilterOptions \<Rightarrow> Request list" where
  "Filter L s opts = Filter_loop L s opts (Offset opts) [] (Store.Requests s)"

text \<open>
  The predicates of \<open>a\<close> are among those of \<open>ab\<close>: every predicate field of \<open>a\<close> is either
  unset or set as in \<open>ab\<close>. Limit and offset are not predicates.
\<close>

definition predicates_among :: "golib \<Rightarrow> FilterOptions \<Rightarrow> FilterOptions \<Rightarrow> bool" where
  "predicates_among L a ab =
     ((ExcludeIgnored a \<longrightarrow> ExcludeIgnored ab)
      \<and> (PrimaryOnly a \<longrightarrow> PrimaryOnly ab)
      \<and> (FilterOptions.Domain a = [] \<or> FilterOptions.Domain a = FilterOptions.Domain ab)
      \<and> (Domains a = [] \<or> Domains a = Domains ab)
      \<and> (FilterOptions.Method a = [] \<or> FilterOptions.Method a = FilterOptions.Method ab)
      \<and> (Methods a = [] \<or> Methods a = Methods ab)
      \<and> (FilterOptions.Status a = 0 \<or> FilterOptions.Status a = FilterOptions.Status ab)
      \<and> (StatusRange a = [] \<or> StatusRange a = StatusRange ab)
      \<and> (StatusRanges a = [] \<or> StatusRanges a = StatusRanges ab)
      \<and> (ResourceTypes a = [] \<or> ResourceTypes a = ResourceTypes ab)
      \<and> (TrimSpace L (Pattern a) = [] \<or> Pattern a = Pattern ab))"

subsection \<open>\<^verbatim>\<open>Filter\<close> returns a page of the matching requests\<close>

text \<open>Pagination as a function of the list of all matches.\<close>

definition paginate :: "int \<Rightarrow> int \<Rightarrow> 'a list \<Rightarrow> 'a list" where
  "paginate lim off ms = (if lim > 0 then take (nat lim) (drop (nat off) ms) else drop (nat off) ms)"

lemma Filter_loop_eq:
  "(Limit opts > 0 \<longrightarrow> int (length res) < Limit opts) \<Longrightarrow>
   Filter_loop L s opts off res xs =
     res @ (if Limit opts > 0
            then take (nat (Limit opts) - length res)
                   (drop (nat off) (filter (Filter_match L s opts) xs))
            else drop (nat off) (filter (Filter_match L s opts) xs))"
proof (induction xs arbitrary: off res)
  case Nil
  then show ?case by simp
next
  case (Cons req rest)
  show ?case
  proof (cases "Filter_match L s opts req")
    case False
    then show ?thesis using Cons by simp
  next
    case m: True
    show ?thesis
    proof (cases "off > 0")
      case True
      then have "nat off = Suc (nat (off - 1))" by simp
      then show ?thesis using m True Cons.IH [of res "off - 1"] Cons.prems
        by (simp del: nat_diff_distrib')
    next
      case o: False
      then have z: "nat off = 0" by simp
      show ?thesis
      proof (cases "Limit opts > 0 \<and> int (length (res @ [req])) \<ge> Limit opts")
        case True
        with Cons.prems have "nat (Limit opts) - length res = Suc 0" by auto
        then show ?thesis using m o z True by simp
      next
        case False
        then have p: "Limit opts > 0 \<longrightarrow> int (length (res @ [req])) < Limit opts" by auto
        have "Limit opts > 0 \<Longrightarrow> nat (Limit opts) - length res = Suc (nat (Limit opts) - length (res @ [req]))"
          using p by auto
        then show ?thesis using m o z False Cons.IH [OF p, of off]
          by auto
      qed
    qed
  qed
qed

lemma Filter_eq:
  "Filter L s opts = paginate (Limit opts) (Offset opts) (filter (Filter_match L s opts) (Store.Requests s))"
  by (simp add: Filter_def Filter_loop_eq paginate_def)

lemma Filter_match_pagination [simp]:
  "Filter_match L s (opts\<lparr>Limit := l\<rparr>) = Filter_match L s opts"
  "Filter_match L s (opts\<lparr>Offset := k\<rparr>) = Filter_match L s opts"
  by (simp_all add: Filter_match_def fun_eq_iff cong: option.case_cong)


lemma set_paginate: "set (paginate lim off ms) \<subseteq> set ms"
  by (auto simp: paginate_def dest: in_set_takeD in_set_dropD)

lemma paginate_unlimited: "lim \<le> 0 \<Longrightarrow> off \<le> 0 \<Longrightarrow> paginate lim off ms = ms"
  by (simp add: paginate_def)

section \<open>The native messaging host (cmd/host/main.go)\<close>

text \<open>
  The host never reads a field of a captured request, so the element type of the buffer
  is a type parameter. \<^verbatim>\<open>msg.Requests != nil\<close> and \<^verbatim>\<open>msg.Request != nil\<close> are tested by the
  code, so both fields of a message are options.
\<close>

record 'r Message =
  Type :: string
  Requests :: "'r list option"
  Request :: "'r option"
  Action :: string

record 'r LiveData =
  Version :: string
  ExportedAt :: string
  SessionID :: string
  Requests :: "'r list"

definition MaxLiveRequests :: nat where
  "MaxLiveRequests = 10000"

text \<open>
  What the host takes from the Go library and the operating system: the clock
  (\<^verbatim>\<open>time.Now().Format(time.RFC3339)\<close>), \<^verbatim>\<open>json.MarshalIndent\<close> and \<^verbatim>\<open>json.Unmarshal\<close> for
  \<^verbatim>\<open>LiveData\<close> (\<^const>\<open>Inl\<close> is the error), and whether \<^verbatim>\<open>os.WriteFile\<close> fails on a path.
  \<^verbatim>\<open>json.Unmarshal\<close> decodes into the value it is given.
\<close>

record 'r hostenv =
  now_RFC3339 :: string
  MarshalIndent :: "'r LiveData \<Rightarrow> string + string"
  Unmarshal :: "string \<Rightarrow> 'r LiveData \<Rightarrow> string + 'r LiveData"
  WriteFile_error :: "string \<Rightarrow> string option"

text \<open>
  The global variables \<^verbatim>\<open>liveData\<close> and \<^verbatim>\<open>dataPath\<close>, the files on disk (path to content;
  a path that cannot be read is \<^const>\<open>None\<close>) and what was written to standard error.
\<close>

record 'r host =
  liveData :: "'r LiveData"
  dataPath :: string
  files :: "string \<rightharpoonup> string"
  stderr :: "string list"

text \<open>The reply \<^verbatim>\<open>map[string]interface{}\<close>, by its keys.\<close>

record reply =
  success :: bool
  action :: "string option"
  count :: "nat option"
  path :: "string option"
  error :: "string option"

definition LiveData_fresh :: "'r LiveData" where
  "LiveData_fresh = \<lparr>Version = ''1.0'', ExportedAt = [], SessionID = [], Requests = []\<rparr>"

definition loadLiveData :: "'r hostenv \<Rightarrow> 'r host \<Rightarrow> 'r LiveData \<times> 'r host" where
  "loadLiveData env st =
     (let data = LiveData_fresh
      in case files st (dataPath st) of
           None \<Rightarrow> (data, st)
         | Some content \<Rightarrow>
             (case Unmarshal env content data of
                Inl err \<Rightarrow>
                  (LiveData_fresh,
                   st\<lparr>stderr := stderr st @
                        [''Warning: corrupted live.json, starting fresh: '' @ err @ [CHR 0x0A]]\<rparr>)
              | Inr data' \<Rightarrow> (data', st)))"

definition saveLiveDataUnlocked :: "'r hostenv \<Rightarrow> 'r host \<Rightarrow> string option \<times> 'r host" where
  "saveLiveDataUnlocked env st =
     (let st1 = st\<lparr>liveData := (liveData st)\<lparr>ExportedAt := now_RFC3339 env\<rparr>\<rparr>
      in case MarshalIndent env (liveData st1) of
           Inl err \<Rightarrow> (Some err, st1)
         | Inr content \<Rightarrow>
             (case WriteFile_error env (dataPath st1) of
                Some err \<Rightarrow> (Some err, st1)
              | None \<Rightarrow> (None, st1\<lparr>files := (files st1)(dataPath st1 \<mapsto> content)\<rparr>)))"

definition reply_unknown :: reply where
  "reply_unknown =
     \<lparr>success = False, action = None, count = None, path = None,
      error = Some ''unknown action''\<rparr>"

definition handleMessage :: "'r hostenv \<Rightarrow> 'r host \<Rightarrow> 'r Message \<Rightarrow> reply \<times> 'r host" where
  "handleMessage env st msg =
     (if Action msg = ''add'' then
        (case Message.Request msg of
           Some r \<Rightarrow>
             let ld = liveData st;
                 kept = (if length (LiveData.Requests ld) \<ge> MaxLiveRequests
                         then drop (MaxLiveRequests div 10) (LiveData.Requests ld)
                         else LiveData.Requests ld);
                 st1 = st\<lparr>liveData := ld\<lparr>LiveData.Requests := kept @ [r]\<rparr>\<rparr>;
                 st2 = snd (saveLiveDataUnlocked env st1)
             in (\<lparr>success = True, action = Some ''add'',
                  count = Some (length (LiveData.Requests (liveData st2))),
                  path = None, error = None\<rparr>, st2)
         | None \<Rightarrow> (reply_unknown, st))
      else if Action msg = ''sync'' then
        (case Message.Requests msg of
           Some rs \<Rightarrow>
             let rs' = (if length rs > MaxLiveRequests
                        then drop (length rs - MaxLiveRequests) rs else rs);
                 st1 = st\<lparr>liveData := (liveData st)\<lparr>LiveData.Requests := rs'\<rparr>\<rparr>;
                 st2 = snd (saveLiveDataUnlocked env st1)
             in (\<lparr>success = True, action = Some ''sync'',
                  count = Some (length (LiveData.Requests (liveData st2))),
                  path = None, error = None\<rparr>, st2)
         | None \<Rightarrow> (reply_unknown, st))
      else if Action msg = ''clear'' then
        (let st1 = st\<lparr>liveData := (liveData st)\<lparr>LiveData.Requests := []\<rparr>\<rparr>;
             st2 = snd (saveLiveDataUnlocked env st1)
         in (\<lparr>success = True, action = Some ''clear'', count = None, path = None,
              error = None\<rparr>, st2))
      else if Action msg = ''ping'' then
        (\<lparr>success = True, action = Some ''pong'',
          count = Some (length (LiveData.Requests (liveData st))),
          path = Some (dataPath st), error = None\<rparr>, st)
      else (reply_unknown, st))"

text \<open>
  The start of \<^verbatim>\<open>main\<close>: load the snapshot, and generate a session ID (the clock formatted
  as \<^verbatim>\<open>20060102-150405\<close>, here \<open>sid\<close>) when the loaded buffer is fresh.
\<close>

definition host_start :: "'r hostenv \<Rightarrow> string \<Rightarrow> 'r host \<Rightarrow> 'r host" where
  "host_start env sid st =
     (case loadLiveData env st of
        (ld, st1) \<Rightarrow>
          st1\<lparr>liveData :=
                (if SessionID ld = [] \<or> length (LiveData.Requests ld) = 0
                 then ld\<lparr>SessionID := sid\<rparr> else ld)\<rparr>)"

section \<open>Chain reconstruction (the chain command)\<close>

record ChainLink =
  ID :: string
  Method :: string
  URL :: string
  Status :: int
  Initiator :: string
  ResourceType :: string

record RequestChain =
  PageURL :: string
  Links :: "ChainLink list"

definition findRequestByURL :: "golib \<Rightarrow> Store \<Rightarrow> string \<Rightarrow> Request option" where
  "findRequestByURL L s targetURL =
     find (\<lambda>r. Request.URL r = targetURL) (Filter L s FilterOptions_zero)"

lemma findRequestByURL_in_store:
  "findRequestByURL L s u = Some p \<Longrightarrow> p \<in> set (Store.Requests s)"
proof -
  assume "findRequestByURL L s u = Some p"
  then have "p \<in> set (Filter L s FilterOptions_zero)"
    by (auto simp: findRequestByURL_def find_Some_iff)
  then show ?thesis
    using set_paginate [of "Limit FilterOptions_zero" "Offset FilterOptions_zero"
                           "filter (Filter_match L s FilterOptions_zero) (Store.Requests s)"]
    by (auto simp: Filter_eq)
qed

text \<open>
  The link made of the current request, and the root link made of an initiator URL
  (the other fields of a root link are zero values).
\<close>

definition link_of :: "Request \<Rightarrow> ChainLink" where
  "link_of current =
     \<lparr>ChainLink.ID = Request.ID current, Method = Request.Method current,
      URL = Request.URL current,
      Status = (case Response current of None \<Rightarrow> 0 | Some resp \<Rightarrow> Response.Status resp),
      Initiator = Request.Initiator current, ResourceType = Request.ResourceType current\<rparr>"

definition root_link :: "string \<Rightarrow> ChainLink" where
  "root_link initiator =
     \<lparr>ChainLink.ID = [], Method = [CHR 0xE2, CHR 0x86, CHR 0x92], URL = initiator, Status = 0,
      Initiator = [], ResourceType = []\<rparr>"

text \<open>
  The loop of \<^verbatim>\<open>buildChainForRequest\<close> on its variables \<^verbatim>\<open>visited\<close>, \<^verbatim>\<open>current\<close> and
  \<^verbatim>\<open>chain.Links\<close>. The last argument counts the executions of the loop body; the source has
  no such counter. The result is the final list of links and the count.
\<close>

function chain_loop :: "golib \<Rightarrow> Store \<Rightarrow> string set \<Rightarrow> Request option \<Rightarrow> ChainLink list \<Rightarrow> nat
                        \<Rightarrow> ChainLink list \<times> nat" where
  "chain_loop L s visited None links n = (links, n)"
| "chain_loop L s visited (Some current) links n =
     (if Request.ID current \<in> visited then (links, n)
      else
        let links1 = link_of current # links
        in if Request.Initiator current = [] then (links1, Suc n)
           else
             (case findRequestByURL L s (Request.Initiator current) of
                None \<Rightarrow> (root_link (Request.Initiator current) # links1, Suc n)
              | Some parent \<Rightarrow>
                  if Request.ID parent = Request.ID current
                  then (root_link (Request.Initiator current) # links1, Suc n)
                  else chain_loop L s (insert (Request.ID current) visited) (Some parent)
                         links1 (Suc n)))"
  by pat_completeness auto
termination
proof (relation "measures
    [\<lambda>(L, s, visited, current, links, n).
        card (Request.ID ` set (Store.Requests s) - visited),
     \<lambda>(L, s, visited, current, links, n).
        (case current of
           None \<Rightarrow> 0
         | Some c \<Rightarrow> if Request.ID c \<in> Request.ID ` set (Store.Requests s) then 0 else 1)]")
  show "wf (measures
    [\<lambda>(L, s, visited, current, links, n).
        card (Request.ID ` set (Store.Requests s) - visited),
     \<lambda>(L, s, visited, current, links, n).
        (case current of
           None \<Rightarrow> 0
         | Some c \<Rightarrow> if Request.ID c \<in> Request.ID ` set (Store.Requests s) then 0 else (1::nat))])"
    by simp
next
  fix L :: golib and s :: Store and visited :: "string set" and current :: Request
    and links :: "ChainLink list" and n :: nat and x :: "ChainLink list" and parent :: Request
  let ?ids = "Request.ID ` set (Store.Requests s)"
  assume nv: "Request.ID current \<notin> visited"
    and f: "findRequestByURL L s (Request.Initiator current) = Some parent"
  from f have p: "Request.ID parent \<in> ?ids"
    using findRequestByURL_in_store by blast
  show "((L, s, insert (Request.ID current) visited, Some parent, x, Suc n),
         (L, s, visited, Some current, links, n))
        \<in> measures
    [\<lambda>(L, s, visited, current, links, n).
        card (Request.ID ` set (Store.Requests s) - visited),
     \<lambda>(L, s, visited, current, links, n).
        (case current of
           None \<Rightarrow> 0
         | Some c \<Rightarrow> if Request.ID c \<in> Request.ID ` set (Store.Requests s) then 0 else 1)]"
  proof (cases "Request.ID current \<in> ?ids")
    case True
    with nv have "card (?ids - insert (Request.ID current) visited) < card (?ids - visited)"
      by (intro psubset_card_mono) auto
    then show ?thesis by simp
  next
    case False
    then have "?ids - insert (Request.ID current) visited = ?ids - visited" by auto
    with False p show ?thesis by simp
  qed
qed

declare chain_loop.simps [simp del]

definition buildChainForRequest :: "golib \<Rightarrow> Store \<Rightarrow> Request \<Rightarrow> RequestChain" where
  "buildChainForRequest L s req =
     \<lparr>PageURL = Request.PageURL req, Links = fst (chain_loop L s {} (Some req) [] 0)\<rparr>"

text \<open>The number of executions of the loop body in \<^verbatim>\<open>buildChainForRequest\<close>.\<close>

definition buildChain_steps :: "golib \<Rightarrow> Store \<Rightarrow> Request \<Rightarrow> nat" where
  "buildChain_steps L s req = snd (chain_loop L s {} (Some req) [] 0)"

section \<open>Example inputs\<close>

text \<open>
  A small instance of the library functions, for evaluating the model: ASCII case
  folding, trimming of blanks, a pattern compiler that rejects \<^verbatim>\<open>(\<close> and otherwise matches
  the pattern literally, and a parser for URLs of the shape
  \<^verbatim>\<open>scheme://host/path?query\<close> that rejects any \<^verbatim>\<open>%\<close>.
\<close>

definition url_Parse0 :: "string \<Rightarrow> URL option" where
  "url_Parse0 u =
     (if CHR ''%'' \<in> set u then None
      else let rest = drop 3 (dropWhile (\<lambda>c. c \<noteq> CHR '':'') u);
               pq = dropWhile (\<lambda>c. c \<noteq> CHR ''/'') rest
           in Some \<lparr>Host = takeWhile (\<lambda>c. c \<noteq> CHR ''/'') rest,
                    Path = takeWhile (\<lambda>c. c \<noteq> CHR ''?'') pq,
                    RawQuery = drop 1 (dropWhile (\<lambda>c. c \<noteq> CHR ''?'') pq)\<rparr>)"

definition lib0 :: golib where
  "lib0 =
     \<lparr>EqualFold = (\<lambda>a b. map lower_ascii a = map lower_ascii b),
      ToLower = map lower_ascii,
      TrimSpace = (\<lambda>s. rev (dropWhile (\<lambda>c. c = CHR '' '') (rev (dropWhile (\<lambda>c. c = CHR '' '') s)))),
      regexp_Compile = (\<lambda>p. if p = ''('' then None else Some (\<lambda>u. Contains u p)),
      url_Parse = url_Parse0\<rparr>"

definition req0 :: "string \<Rightarrow> string \<Rightarrow> string \<Rightarrow> int option \<Rightarrow> Request" where
  "req0 i m u st =
     Request_zero\<lparr>Request.ID := i, Request.Method := m, Request.URL := u,
                  Response := map_option (\<lambda>c. \<lparr>Response.Status = c, Headers = Map.empty, Body = []\<rparr>) st\<rparr>"

definition store0 :: Store where
  "store0 = NewTempStore lib0
     [req0 ''1'' ''GET'' ''https://a.example/x?q=1'' (Some 200),
      req0 ''2'' ''POST'' ''https://A.example/login'' (Some 404),
      req0 ''3'' ''GET'' ''https://b.example/'' None,
      req0 ''4'' ''get'' ''https://a.example/y'' (Some 500)]"

text \<open>An example environment: the store file holds five legacy requests and no session.\<close>

definition legacy0 :: "Request list" where
  "legacy0 =
     [req0 ''1'' ''GET'' ''https://a.example/x?q=1'' (Some 200),
      req0 ''2'' ''POST'' ''https://A.example/login'' (Some 404),
      req0 ''3'' ''GET'' ''https://b.example/'' None,
      req0 ''4'' ''get'' ''https://a.example/y'' (Some 500),
      req0 ''5'' ''GET'' ''%zz'' None]"

definition loadenv0 :: loadenv where
  "loadenv0 =
     \<lparr>GetStoreFilePath = Inr ''/data/rep-cli/store.json'',
      ReadFile = (\<lambda>p. if p = ''/data/rep-cli/store.json'' then Inr ''legacy'' else Inl NotExist),
      sonic_Unmarshal = (\<lambda>data st. if data = ''legacy''
                                     then Inr (st\<lparr>Store.Requests := legacy0, LastImport := 5\<rparr>)
                                     else Inl ''invalid character''),
      today_20060102 = ''20240102'',
      now_UnixMilli = 1704153600000\<rparr>"

text \<open>An example store whose two requests name each other as initiator.\<close>

definition cyc_a :: Request where
  "cyc_a = (req0 ''a'' ''GET'' ''https://a.example/a'' None)
             \<lparr>Request.Initiator := ''https://a.example/b''\<rparr>"

definition cyc_b :: Request where
  "cyc_b = (req0 ''b'' ''GET'' ''https://a.example/b'' None)
             \<lparr>Request.Initiator := ''https://a.example/a''\<rparr>"

definition cyc0 :: Store where
  "cyc0 = NewStore\<lparr>Store.Requests := [cyc_a, cyc_b]\<rparr>"

text \<open>A document, a script it loads, and a call the script makes.\<close>

definition chain_r1 :: Request where
  "chain_r1 = req0 ''r1'' ''GET'' ''https://a.example/'' (Some 200)"

definition chain_r2 :: Request where
  "chain_r2 = (req0 ''r2'' ''GET'' ''https://a.example/app.js'' (Some 200))
                \<lparr>Request.Initiator := ''https://a.example/''\<rparr>"

definition chain_r3 :: Request where
  "chain_r3 = (req0 ''r3'' ''POST'' ''https://a.example/api'' None)
                \<lparr>Request.Initiator := ''https://a.example/app.js''\<rparr>"

text \<open>An example host: requests are numbers, a snapshot file holds one \<^verbatim>\<open>r\<close> per request.\<close>

definition env0 :: "nat hostenv" where
  "env0 =
     \<lparr>now_RFC3339 = ''2024-01-01T00:00:00Z'',
      MarshalIndent = (\<lambda>ld. Inr (replicate (length (LiveData.Requests ld)) CHR ''r'')),
      Unmarshal = (\<lambda>c ld. if c \<noteq> [] \<and> set c \<subseteq> {CHR ''r''}
                          then Inr (ld\<lparr>LiveData.Requests := replicate (length c) 0\<rparr>)
                          else Inl ''invalid character''),
      WriteFile_error = (\<lambda>p. None)\<rparr>"

definition host0 :: "nat list \<Rightarrow> nat host" where
  "host0 rs =
     \<lparr>liveData = \<lparr>Version = ''1.0'', ExportedAt = [], SessionID = ''20240101-000000'',
                   Requests = rs\<rparr>,
      dataPath = ''/tmp/live.json'', files = Map.empty, stderr = []\<rparr>"

section \<open>Properties\<close>

subsection \<open>Fingerprints\<close>

lemma length_Sum256: "length (Sum256 m) = 32"
  by (simp add: Sum256_def be_bytes_def split: prod.splits)

lemma length_hex_bytes: "length (hex_bytes bs) = 2 * length bs"
  by (induction bs) (simp_all add: hex_bytes_def)

text \<open>
  The digests of two inputs, computed by the model of SHA-256; they are the digests that
  \<^verbatim>\<open>sha256sum\<close> prints for the same bytes.
\<close>

lemma digest_example:
  "hex_bytes (Sum256 (bytes_of ''GET|https://a.example/x?q=1||1700000000123''))
     = ''16dce3e3c43a6e4e5e884c79517655f67e59b8a4b2f8eb5b7f58a90e5f4c6dd8''"
  by code_simp

lemma digest_example2:
  "hex_bytes (Sum256 (bytes_of ''POST|https://a.example/login|user=a&pw=b|-5''))
     = ''bdcf4e1d44a3100fdb5da052689a3f8745cbe3a39397bb06fa82c765a6ad12b0''"
  by code_simp

text \<open>
  C1. A request has a stable ID when its ID is non-empty and either its original-ID is
  non-empty or its ID starts with the marker \<^verbatim>\<open>h_\<close>. For every request with a stable ID
  the fingerprint is the ID; for every other request the fingerprint is the content hash;
  a request with an empty ID is never stable. The content hash is the SHA-256 digest, as
  64 lower-case hexadecimal digits, of the method, the URL, the body and the decimal
  timestamp joined by vertical bars; so it is a function of these four fields alone: two
  requests that agree on them have the same hash, whatever their other fields.
\<close>

theorem fingerprint_stable_or_hash:
  "(Request.ID r \<noteq> [] \<and> (Request.OriginalID r \<noteq> [] \<or> HasPrefix (Request.ID r) ''h_'')
      \<longrightarrow> isStableID (Some r) \<and> RequestFingerprint (Some r) = Request.ID r)
   \<and> (\<not> (Request.ID r \<noteq> [] \<and> (Request.OriginalID r \<noteq> [] \<or> HasPrefix (Request.ID r) ''h_''))
      \<longrightarrow> \<not> isStableID (Some r) \<and> RequestFingerprint (Some r) = RequestHash (Some r))
   \<and> (Request.ID r = [] \<longrightarrow> \<not> isStableID (Some r))
   \<and> (Request.Method r = Request.Method r' \<and> Request.URL r = Request.URL r'
        \<and> Request.Body r = Request.Body r' \<and> Request.Timestamp r = Request.Timestamp r'
      \<longrightarrow> RequestHash (Some r) = RequestHash (Some r'))
   \<and> RequestHash (Some r)
       = hex_bytes (Sum256 (bytes_of (Request.Method r @ ''|'' @ Request.URL r @ ''|''
                                        @ Request.Body r @ ''|'' @ fmt_d (Request.Timestamp r))))
   \<and> length (RequestHash (Some r)) = 64"
  by (simp add: isStableID_def RequestFingerprint_def RequestHash_def length_hex_bytes
                length_Sum256)

theorem fingerprint_stable_or_hash_witness:
  "(RequestFingerprint (Some (Request_zero\<lparr>Request.ID := ''h_17'', Request.Method := ''GET''\<rparr>)) = ''h_17''
   \<and> RequestFingerprint (Some (Request_zero\<lparr>Request.ID := ''42'', OriginalID := ''7''\<rparr>)) = ''42''
   \<and> RequestFingerprint (Some (Request_zero\<lparr>Request.ID := ''42'', Request.Method := ''GET''\<rparr>))
       = RequestHash (Some (Request_zero\<lparr>Request.ID := ''42'', Request.Method := ''GET''\<rparr>))
   \<and> \<not> isStableID (Some (Request_zero\<lparr>OriginalID := ''7''\<rparr>))
   \<and> RequestHash (Some (Request_zero\<lparr>Request.ID := ''1'', Request.Method := ''GET'', Request.Timestamp := 5\<rparr>))
       = RequestHash (Some (Request_zero\<lparr>Request.ID := ''2'', Request.Method := ''GET'', Request.Timestamp := 5,
                                          Request.PageURL := ''p''\<rparr>)))
   \<and> RequestFingerprint (Some (Request_zero\<lparr>Request.ID := ''42'', Request.Method := ''GET'',
            Request.URL := ''https://a.example/x?q=1'', Request.Timestamp := 1700000000123\<rparr>))
       = ''16dce3e3c43a6e4e5e884c79517655f67e59b8a4b2f8eb5b7f58a90e5f4c6dd8''
   \<and> RequestHash (Some (Request_zero\<lparr>Request.ID := ''43'', Request.Method := ''POST'',
            Request.URL := ''https://a.example/login'', Request.Body := ''user=a&pw=b'',
            Request.Timestamp := - 5\<rparr>))
       = ''bdcf4e1d44a3100fdb5da052689a3f8745cbe3a39397bb06fa82c765a6ad12b0''
   \<and> length ''bdcf4e1d44a3100fdb5da052689a3f8745cbe3a39397bb06fa82c765a6ad12b0'' = 64"
proof -
  let ?q = "Request_zero\<lparr>Request.ID := ''43'', Request.Method := ''POST'',
            Request.URL := ''https://a.example/login'', Request.Body := ''user=a&pw=b'',
            Request.Timestamp := - 5\<rparr>"
  let ?r = "Request_zero\<lparr>Request.ID := ''42'', Request.Method := ''GET'',
            Request.URL := ''https://a.example/x?q=1'', Request.Timestamp := 1700000000123\<rparr>"
  have a: "RequestFingerprint (Some (Request_zero\<lparr>Request.ID := ''h_17'', Request.Method := ''GET''\<rparr>)) = ''h_17''
   \<and> RequestFingerprint (Some (Request_zero\<lparr>Request.ID := ''42'', OriginalID := ''7''\<rparr>)) = ''42''
   \<and> RequestFingerprint (Some (Request_zero\<lparr>Request.ID := ''42'', Request.Method := ''GET''\<rparr>))
       = RequestHash (Some (Request_zero\<lparr>Request.ID := ''42'', Request.Method := ''GET''\<rparr>))
   \<and> \<not> isStableID (Some (Request_zero\<lparr>OriginalID := ''7''\<rparr>))
   \<and> RequestHash (Some (Request_zero\<lparr>Request.ID := ''1'', Request.Method := ''GET'', Request.Timestamp := 5\<rparr>))
       = RequestHash (Some (Request_zero\<lparr>Request.ID := ''2'', Request.Method := ''GET'', Request.Timestamp := 5,
                                          Request.PageURL := ''p''\<rparr>))"
    using fingerprint_stable_or_hash
            [of "Request_zero\<lparr>Request.ID := ''h_17'', Request.Method := ''GET''\<rparr>" Request_zero]
          fingerprint_stable_or_hash
            [of "Request_zero\<lparr>Request.ID := ''42'', OriginalID := ''7''\<rparr>" Request_zero]
          fingerprint_stable_or_hash
            [of "Request_zero\<lparr>Request.ID := ''42'', Request.Method := ''GET''\<rparr>" Request_zero]
          fingerprint_stable_or_hash
            [of "Request_zero\<lparr>OriginalID := ''7''\<rparr>" Request_zero]
          fingerprint_stable_or_hash
            [of "Request_zero\<lparr>Request.ID := ''1'', Request.Method := ''GET'', Request.Timestamp := 5\<rparr>"
                "Request_zero\<lparr>Request.ID := ''2'', Request.Method := ''GET'', Request.Timestamp := 5,
                              Request.PageURL := ''p''\<rparr>"]
    by (simp add: Request_zero_def HasPrefix_def)
  have n: "\<not> (Request.ID ?r \<noteq> [] \<and> (Request.OriginalID ?r \<noteq> [] \<or> HasPrefix (Request.ID ?r) ''h_''))"
    by (simp add: Request_zero_def HasPrefix_def)
  have h: "RequestHash (Some ?r) = ''16dce3e3c43a6e4e5e884c79517655f67e59b8a4b2f8eb5b7f58a90e5f4c6dd8''"
    by (simp add: RequestHash_def Request_zero_def fmt_d_def dec_nat.simps digest_example)
  have "RequestFingerprint (Some ?r) = RequestHash (Some ?r)"
    by (rule fingerprint_stable_or_hash
               [of ?r ?r, THEN conjunct2, THEN conjunct1, rule_format, THEN conjunct2])
       (rule n)
  with h have b: "RequestFingerprint (Some ?r)
                    = ''16dce3e3c43a6e4e5e884c79517655f67e59b8a4b2f8eb5b7f58a90e5f4c6dd8''"
    by simp
  have "RequestHash (Some ?q)
          = hex_bytes (Sum256 (bytes_of (Request.Method ?q @ ''|'' @ Request.URL ?q @ ''|''
                                           @ Request.Body ?q @ ''|'' @ fmt_d (Request.Timestamp ?q))))"
    by (rule fingerprint_stable_or_hash
               [of ?q ?q, THEN conjunct2, THEN conjunct2, THEN conjunct2, THEN conjunct2,
                THEN conjunct1])
  then have c: "RequestHash (Some ?q)
                  = ''bdcf4e1d44a3100fdb5da052689a3f8745cbe3a39397bb06fa82c765a6ad12b0''"
    by (simp add: Request_zero_def fmt_d_def dec_nat.simps digest_example2)
  have "length (RequestHash (Some ?q)) = 64"
    by (rule fingerprint_stable_or_hash
               [of ?q ?q, THEN conjunct2, THEN conjunct2, THEN conjunct2, THEN conjunct2,
                THEN conjunct2])
  then have d: "length ''bdcf4e1d44a3100fdb5da052689a3f8745cbe3a39397bb06fa82c765a6ad12b0'' = 64"
    by (simp only: c)
  show ?thesis
    by (rule conjI [OF a]) (intro conjI b c d)
qed

subsection \<open>The live buffer\<close>

lemma requests_after_save:
  "LiveData.Requests (liveData (snd (saveLiveDataUnlocked env st))) = LiveData.Requests (liveData st)"
  by (simp add: saveLiveDataUnlocked_def Let_def split: sum.splits option.splits)

lemma add_requests:
  "Action msg = ''add'' \<Longrightarrow> Message.Request msg = Some r \<Longrightarrow>
   LiveData.Requests (liveData (snd (handleMessage env st msg))) =
     (if length (LiveData.Requests (liveData st)) \<ge> MaxLiveRequests
      then drop (MaxLiveRequests div 10) (LiveData.Requests (liveData st))
      else LiveData.Requests (liveData st)) @ [r]"
  by (simp add: handleMessage_def Let_def requests_after_save)

text \<open>
  The host installs whatever the snapshot file holds: a file of 11000 requests gives a
  buffer of 11000 requests.
\<close>

lemma loaded_oversize:
  "LiveData.Requests (liveData (host_start env0 ''20240102-000000''
       ((host0 [])\<lparr>files := [''/tmp/live.json'' \<mapsto> replicate 11000 CHR ''r'']\<rparr>)))
     = replicate 11000 0"
  by (simp add: host_start_def loadLiveData_def host0_def env0_def LiveData_fresh_def)

text \<open>
  C2, as stated, fails: the buffer loaded from a snapshot of 11000 requests holds 10001
  requests after an add, since an add evicts 1000 requests and no more.
\<close>

theorem add_exceeds_capacity_counterexample:
  "length (LiveData.Requests (liveData (host_start env0 ''20240102-000000''
       ((host0 [])\<lparr>files := [''/tmp/live.json'' \<mapsto> replicate 11000 CHR ''r'']\<rparr>)))) = 11000
   \<and> length (LiveData.Requests (liveData (snd (handleMessage env0
        (host_start env0 ''20240102-000000''
           ((host0 [])\<lparr>files := [''/tmp/live.json'' \<mapsto> replicate 11000 CHR ''r'']\<rparr>))
        \<lparr>Type = [], Requests = None, Request = Some 7, Action = ''add''\<rparr>)))) = 10001
   \<and> \<not> length (LiveData.Requests (liveData (snd (handleMessage env0
        (host_start env0 ''20240102-000000''
           ((host0 [])\<lparr>files := [''/tmp/live.json'' \<mapsto> replicate 11000 CHR ''r'']\<rparr>))
        \<lparr>Type = [], Requests = None, Request = Some 7, Action = ''add''\<rparr>)))) \<le> MaxLiveRequests"
  by (simp add: add_requests loaded_oversize MaxLiveRequests_def)

text \<open>
  C2, amended. For every buffer state and every add of a request \<open>r\<close>: when the buffer
  length is at or above the capacity of 10000, exactly capacity/10 = 1000 of the oldest
  entries are evicted, the survivors keep their order and \<open>r\<close> is appended; below capacity
  \<open>r\<close> is appended and nothing is evicted; and the length after the add is within capacity
  whenever the length before it was below capacity + capacity/10, in particular whenever
  the buffer was within capacity before the add.
\<close>

theorem add_rotates:
  assumes "Action msg = ''add''" and "Message.Request msg = Some r"
  shows "(length (LiveData.Requests (liveData st)) \<ge> MaxLiveRequests \<longrightarrow>
            LiveData.Requests (liveData (snd (handleMessage env st msg)))
              = drop (MaxLiveRequests div 10) (LiveData.Requests (liveData st)) @ [r])
       \<and> (length (LiveData.Requests (liveData st)) < MaxLiveRequests \<longrightarrow>
            LiveData.Requests (liveData (snd (handleMessage env st msg)))
              = LiveData.Requests (liveData st) @ [r])
       \<and> (length (LiveData.Requests (liveData st)) < MaxLiveRequests + MaxLiveRequests div 10 \<longrightarrow>
            length (LiveData.Requests (liveData (snd (handleMessage env st msg)))) \<le> MaxLiveRequests)
       \<and> (length (LiveData.Requests (liveData st)) \<le> MaxLiveRequests \<longrightarrow>
            length (LiveData.Requests (liveData (snd (handleMessage env st msg)))) \<le> MaxLiveRequests)
       \<and> MaxLiveRequests = 10000 \<and> MaxLiveRequests div 10 = 1000"
  using assms by (auto simp: add_requests MaxLiveRequests_def)

theorem add_rotates_witness:
  "Action \<lparr>Type = [], Requests = None, Request = Some (7::nat), Action = ''add''\<rparr> = ''add''
   \<and> length (LiveData.Requests (liveData (host0 (replicate 10000 0)))) \<ge> MaxLiveRequests
   \<and> LiveData.Requests (liveData (snd (handleMessage env0 (host0 (replicate 10000 0))
         \<lparr>Type = [], Requests = None, Request = Some 7, Action = ''add''\<rparr>)))
       = replicate 9000 0 @ [7]
   \<and> length (LiveData.Requests (liveData (snd (handleMessage env0 (host0 (replicate 10000 0))
         \<lparr>Type = [], Requests = None, Request = Some 7, Action = ''add''\<rparr>)))) \<le> MaxLiveRequests"
  using add_rotates [of "\<lparr>Type = [], Requests = None, Request = Some (7::nat), Action = ''add''\<rparr>"
                        7 "host0 (replicate 10000 0)" env0]
  by (simp add: host0_def MaxLiveRequests_def)

text \<open>
  C8. For every state, a ping replies with the current request count and the backing
  file path and returns the state as it was: the buffer, its session binding, the files
  on disk and the error channel are unchanged, and nothing is persisted.
\<close>

theorem ping_read_only:
  "Action msg = ''ping'' \<Longrightarrow>
   handleMessage env st msg =
     (\<lparr>success = True, action = Some ''pong'',
       count = Some (length (LiveData.Requests (liveData st))),
       path = Some (dataPath st), error = None\<rparr>, st)"
  by (simp add: handleMessage_def)

theorem ping_read_only_witness:
  "Action \<lparr>Type = [], Requests = None, Request = None :: nat option, Action = ''ping''\<rparr> = ''ping''
   \<and> handleMessage env0 (host0 [1, 2, 3])
         \<lparr>Type = [], Requests = None, Request = None, Action = ''ping''\<rparr>
       = (\<lparr>success = True, action = Some ''pong'', count = Some 3,
           path = Some ''/tmp/live.json'', error = None\<rparr>, host0 [1, 2, 3])"
  using ping_read_only [of "\<lparr>Type = [], Requests = None, Request = None :: nat option,
                             Action = ''ping''\<rparr>" env0 "host0 [1, 2, 3]"]
  by (simp add: host0_def)

text \<open>
  C7. Loading the snapshot never fails: when the file cannot be read the result is the
  fresh empty buffer; when its content does not decode, the error is logged to standard
  error and the result is the fresh empty buffer; in both cases the host starts with an
  empty buffer bound to a new session ID, and nothing else of the state changes.
\<close>

theorem load_fails_open:
  "(files st (dataPath st) = None \<longrightarrow>
      loadLiveData env st = (LiveData_fresh, st)
      \<and> host_start env sid st = st\<lparr>liveData := LiveData_fresh\<lparr>SessionID := sid\<rparr>\<rparr>)
   \<and> (files st (dataPath st) = Some content \<and> Unmarshal env content LiveData_fresh = Inl err \<longrightarrow>
      loadLiveData env st =
        (LiveData_fresh,
         st\<lparr>stderr := stderr st @
              [''Warning: corrupted live.json, starting fresh: '' @ err @ [CHR 0x0A]]\<rparr>)
      \<and> liveData (host_start env sid st) = LiveData_fresh\<lparr>SessionID := sid\<rparr>
      \<and> LiveData.Requests (liveData (host_start env sid st)) = []
      \<and> files (host_start env sid st) = files st)"
  by (simp add: loadLiveData_def host_start_def LiveData_fresh_def)

theorem load_fails_open_witness:
  "files (host0 []) (dataPath (host0 [])) = None
   \<and> loadLiveData env0 (host0 []) = (LiveData_fresh, host0 [])
   \<and> files ((host0 [])\<lparr>files := [''/tmp/live.json'' \<mapsto> ''{oops'']\<rparr>)
        (dataPath ((host0 [])\<lparr>files := [''/tmp/live.json'' \<mapsto> ''{oops'']\<rparr>)) = Some ''{oops''
   \<and> Unmarshal env0 ''{oops'' (LiveData_fresh :: nat LiveData) = Inl ''invalid character''
   \<and> LiveData.Requests (liveData (host_start env0 ''20240102-000000''
        ((host0 [])\<lparr>files := [''/tmp/live.json'' \<mapsto> ''{oops'']\<rparr>))) = []"
proof -
  let ?st = "(host0 [])\<lparr>files := [''/tmp/live.json'' \<mapsto> ''{oops'']\<rparr>"
  have a: "files (host0 []) (dataPath (host0 [])) = None"
    by (simp add: host0_def)
  have b: "files ?st (dataPath ?st) = Some ''{oops''"
    by (simp add: host0_def)
  have c: "Unmarshal env0 ''{oops'' (LiveData_fresh :: nat LiveData) = Inl ''invalid character''"
    by (simp add: env0_def)
  from a load_fails_open [of "host0 []" env0 "''20240102-000000''" "''{oops''" "''invalid character''"]
  have d: "loadLiveData env0 (host0 []) = (LiveData_fresh, host0 [])"
    by blast
  from b c load_fails_open [of ?st env0 "''20240102-000000''" "''{oops''" "''invalid character''"]
  have e: "LiveData.Requests (liveData (host_start env0 ''20240102-000000'' ?st)) = []"
    by blast
  from a b c d e show ?thesis
    by blast
qed

subsection \<open>\<^verbatim>\<open>Filter\<close>: what the loop computes\<close>

lemma store0_Requests:
  "Store.Requests store0 =
     [(req0 ''1'' ''GET'' ''https://a.example/x?q=1'' (Some 200))
        \<lparr>Request.Domain := ''a.example'', Request.Path := ''/x''\<rparr>,
      (req0 ''2'' ''POST'' ''https://A.example/login'' (Some 404))
        \<lparr>Request.Domain := ''A.example'', Request.Path := ''/login''\<rparr>,
      (req0 ''3'' ''GET'' ''https://b.example/'' None)
        \<lparr>Request.Domain := ''b.example'', Request.Path := ''/''\<rparr>,
      (req0 ''4'' ''get'' ''https://a.example/y'' (Some 500))
        \<lparr>Request.Domain := ''a.example'', Request.Path := ''/y''\<rparr>]"
  by (simp add: store0_def NewTempStore_def lib0_def url_Parse0_def req0_def NewStore_def)

lemma Filter_match_among:
  assumes "predicates_among L a ab" and "Filter_match L s ab r"
  shows "Filter_match L s a r"
proof -
  from assms(1) have
    a1: "ExcludeIgnored a \<longrightarrow> ExcludeIgnored ab" and
    a2: "PrimaryOnly a \<longrightarrow> PrimaryOnly ab" and
    a3: "FilterOptions.Domain a = [] \<or> FilterOptions.Domain a = FilterOptions.Domain ab" and
    a4: "Domains a = [] \<or> Domains a = Domains ab" and
    a5: "FilterOptions.Method a = [] \<or> FilterOptions.Method a = FilterOptions.Method ab" and
    a6: "Methods a = [] \<or> Methods a = Methods ab" and
    a7: "FilterOptions.Status a = 0 \<or> FilterOptions.Status a = FilterOptions.Status ab" and
    a8: "StatusRange a = [] \<or> StatusRange a = StatusRange ab" and
    a9: "StatusRanges a = [] \<or> StatusRanges a = StatusRanges ab" and
    a10: "ResourceTypes a = [] \<or> ResourceTypes a = ResourceTypes ab" and
    a11: "TrimSpace L (Pattern a) = [] \<or> Pattern a = Pattern ab"
    unfolding predicates_among_def by simp_all
  note m = assms(2) [unfolded Filter_match_def Let_def]
  show ?thesis
    unfolding Filter_match_def Let_def
    apply (intro conjI)
    subgoal using a1 m by blast
    subgoal using a2 m by blast
    subgoal using a3 m by metis
    subgoal using a4 m by (metis length_greater_0_conv)
    subgoal using a5 m by metis
    subgoal using a6 m by (metis length_greater_0_conv)
    subgoal using a7 m by metis
    subgoal using a8 m by metis
    subgoal using a9 m by (metis length_greater_0_conv)
    subgoal using a10 m by (metis length_greater_0_conv)
    subgoal using a11 m by metis
    done
qed

lemma Filter_among_subset:
  assumes "predicates_among L a ab" "Limit a \<le> 0" "Offset a \<le> 0"
  shows "set (Filter L s ab) \<subseteq> set (Filter L s a)"
proof -
  have "set (Filter L s ab) \<subseteq> set (filter (Filter_match L s ab) (Store.Requests s))"
    unfolding Filter_eq by (rule set_paginate)
  also have "\<dots> \<subseteq> set (filter (Filter_match L s a) (Store.Requests s))"
    using Filter_match_among [OF assms(1)] by auto
  also have "\<dots> = set (Filter L s a)"
    using assms(2,3) by (simp add: Filter_eq paginate_unlimited)
  finally show ?thesis .
qed

lemma subseq_drop_self: "subseq (drop n xs) xs"
  using subseq_drop_many [of "drop n xs" "drop n xs" "take n xs"] by simp

lemma subseq_take_self: "subseq (take n xs) xs"
  using subseq_rev_drop_many [of "take n xs" "take n xs" "drop n xs"] by simp

lemma subseq_paginate: "subseq (paginate lim off ms) ms"
proof -
  have "subseq (take (nat lim) (drop (nat off) ms)) (drop (nat off) ms)"
    by (rule subseq_take_self)
  then have "subseq (take (nat lim) (drop (nat off) ms)) ms"
    using subseq_drop_self subseq_order.trans by blast
  then show ?thesis
    by (simp add: paginate_def subseq_drop_self)
qed

lemma Filter_subset_matches:
  "set (Filter L s opts) \<subseteq> {x \<in> set (Store.Requests s). Filter_match L s opts x}"
  using set_paginate [of "Limit opts" "Offset opts" "filter (Filter_match L s opts) (Store.Requests s)"]
  by (simp add: Filter_eq)

lemmas example_defs =
  Filter_def Filter_match_def store0_Requests lib0_def req0_def FilterOptions_zero_def
  lower_ascii_def Request_zero_def lookup_bool_def StatusRanges_matches_def StatusRange_skips_def

text \<open>
  C3. For option sets \<open>oA\<close> and \<open>oB\<close> without limit and offset whose predicates are among
  those of \<open>oAB\<close>, the result for \<open>oAB\<close> is a subset of the intersection of the results
  for \<open>oA\<close> and for \<open>oB\<close>. A limit \<open>N > 0\<close> gives at most \<open>N\<close> requests; every result is a
  subsequence of the input and of the result without limit and offset; an offset \<open>K\<close>
  drops exactly the first \<open>K\<close> requests of the result without limit and offset; a limit
  of 0 does not cap and an offset of 0 does not skip; and without limit and offset the
  result is the list of all requests that pass the predicates.
\<close>

theorem Filter_composes_and_paginates:
  "(predicates_among L oA oAB \<and> predicates_among L oB oAB
      \<and> Limit oA \<le> 0 \<and> Offset oA \<le> 0 \<and> Limit oB \<le> 0 \<and> Offset oB \<le> 0
      \<longrightarrow> set (Filter L s oAB) \<subseteq> set (Filter L s oA) \<inter> set (Filter L s oB))
   \<and> (0 < Limit opts \<longrightarrow> int (length (Filter L s opts)) \<le> Limit opts)
   \<and> subseq (Filter L s opts) (Store.Requests s)
   \<and> subseq (Filter L s opts) (Filter L s (opts\<lparr>Limit := 0, Offset := 0\<rparr>))
   \<and> Filter L s (opts\<lparr>Limit := 0, Offset := K\<rparr>)
        = drop (nat K) (Filter L s (opts\<lparr>Limit := 0, Offset := 0\<rparr>))
   \<and> Filter L s opts
        = (if Limit opts > 0
           then take (nat (Limit opts))
                  (drop (nat (Offset opts)) (Filter L s (opts\<lparr>Limit := 0, Offset := 0\<rparr>)))
           else drop (nat (Offset opts)) (Filter L s (opts\<lparr>Limit := 0, Offset := 0\<rparr>)))
   \<and> Filter L s (opts\<lparr>Limit := 0, Offset := 0\<rparr>)
        = filter (Filter_match L s opts) (Store.Requests s)"
proof -
  have u: "Filter L s (opts\<lparr>Limit := 0, Offset := 0\<rparr>)
             = filter (Filter_match L s opts) (Store.Requests s)"
    by (simp add: Filter_eq paginate_def)
  have g: "Filter L s opts
             = paginate (Limit opts) (Offset opts) (Filter L s (opts\<lparr>Limit := 0, Offset := 0\<rparr>))"
    by (simp add: u Filter_eq paginate_unlimited)
  have 1: "predicates_among L oA oAB \<and> predicates_among L oB oAB
      \<and> Limit oA \<le> 0 \<and> Offset oA \<le> 0 \<and> Limit oB \<le> 0 \<and> Offset oB \<le> 0
      \<longrightarrow> set (Filter L s oAB) \<subseteq> set (Filter L s oA) \<inter> set (Filter L s oB)"
    using Filter_among_subset by blast
  have 2: "0 < Limit opts \<longrightarrow> int (length (Filter L s opts)) \<le> Limit opts"
    by (auto simp: Filter_eq paginate_def)
  have 3: "subseq (Filter L s opts) (Store.Requests s)"
    by (metis Filter_eq subseq_paginate subseq_filter_left subseq_order.trans)
  have 4: "subseq (Filter L s opts) (Filter L s (opts\<lparr>Limit := 0, Offset := 0\<rparr>))"
    by (metis g subseq_paginate)
  have 5: "Filter L s (opts\<lparr>Limit := 0, Offset := K\<rparr>)
        = drop (nat K) (Filter L s (opts\<lparr>Limit := 0, Offset := 0\<rparr>))"
    by (simp add: Filter_eq paginate_def)
  from 1 2 3 4 5 g u show ?thesis
    unfolding paginate_def by blast
qed


theorem Filter_composes_and_paginates_witness:
  "predicates_among lib0 (FilterOptions_zero\<lparr>FilterOptions.Domain := ''a.example''\<rparr>)
       (FilterOptions_zero\<lparr>FilterOptions.Domain := ''a.example'', FilterOptions.Method := ''GET''\<rparr>)
   \<and> predicates_among lib0 (FilterOptions_zero\<lparr>FilterOptions.Method := ''GET''\<rparr>)
       (FilterOptions_zero\<lparr>FilterOptions.Domain := ''a.example'', FilterOptions.Method := ''GET''\<rparr>)
   \<and> set (Filter lib0 store0
         (FilterOptions_zero\<lparr>FilterOptions.Domain := ''a.example'', FilterOptions.Method := ''GET''\<rparr>))
       \<subseteq> set (Filter lib0 store0 (FilterOptions_zero\<lparr>FilterOptions.Domain := ''a.example''\<rparr>))
         \<inter> set (Filter lib0 store0 (FilterOptions_zero\<lparr>FilterOptions.Method := ''GET''\<rparr>))
   \<and> map Request.ID (Filter lib0 store0
         (FilterOptions_zero\<lparr>FilterOptions.Domain := ''a.example'', FilterOptions.Method := ''GET''\<rparr>))
       = [''1'', ''4'']
   \<and> map Request.ID (Filter lib0 store0 (FilterOptions_zero\<lparr>FilterOptions.Domain := ''a.example''\<rparr>))
       = [''1'', ''2'', ''4'']
   \<and> 0 < Limit (FilterOptions_zero\<lparr>FilterOptions.Domain := ''a.example'', Limit := 1, Offset := 1\<rparr>)
   \<and> int (length (Filter lib0 store0
         (FilterOptions_zero\<lparr>FilterOptions.Domain := ''a.example'', Limit := 1, Offset := 1\<rparr>))) \<le> 1
   \<and> map Request.ID (Filter lib0 store0
         (FilterOptions_zero\<lparr>FilterOptions.Domain := ''a.example'', Limit := 1, Offset := 1\<rparr>))
       = [''2'']"
proof -
  let ?oA = "FilterOptions_zero\<lparr>FilterOptions.Domain := ''a.example''\<rparr>"
  let ?oB = "FilterOptions_zero\<lparr>FilterOptions.Method := ''GET''\<rparr>"
  let ?oAB = "FilterOptions_zero\<lparr>FilterOptions.Domain := ''a.example'', FilterOptions.Method := ''GET''\<rparr>"
  let ?oP = "FilterOptions_zero\<lparr>FilterOptions.Domain := ''a.example'', Limit := 1, Offset := 1\<rparr>"
  note T = Filter_composes_and_paginates [of lib0 ?oA ?oAB ?oB store0 ?oP]
  have a: "predicates_among lib0 ?oA ?oAB" and b: "predicates_among lib0 ?oB ?oAB"
    by (simp_all add: predicates_among_def FilterOptions_zero_def lib0_def)
  have c: "Limit ?oA \<le> 0" "Offset ?oA \<le> 0" "Limit ?oB \<le> 0" "Offset ?oB \<le> 0"
    by (simp_all add: FilterOptions_zero_def)
  have d: "0 < Limit ?oP" and d': "Limit ?oP = 1"
    by (simp_all add: FilterOptions_zero_def)
  have e: "set (Filter lib0 store0 ?oAB) \<subseteq> set (Filter lib0 store0 ?oA) \<inter> set (Filter lib0 store0 ?oB)"
    by (rule T [THEN conjunct1, rule_format]) (intro conjI a b c)
  have f: "int (length (Filter lib0 store0 ?oP)) \<le> 1"
    using T [THEN conjunct2, THEN conjunct1, rule_format, OF d] unfolding d' .
  have g: "map Request.ID (Filter lib0 store0 ?oAB) = [''1'', ''4'']"
    by (simp add: example_defs)
  have h: "map Request.ID (Filter lib0 store0 ?oA) = [''1'', ''2'', ''4'']"
    by (simp add: example_defs)
  have i: "map Request.ID (Filter lib0 store0 ?oP) = [''2'']"
    by (simp add: example_defs)
  show ?thesis
    by (intro conjI a b e g h d f i)
qed

text \<open>
  C9. A request without a response is never in the result of a filter with a non-zero
  exact status; but the single status range and the set of status ranges do not test
  it: whether it passes the predicates does not depend on them, so setting them never
  removes it from the result, and a filter with nothing but status ranges returns it.
\<close>

theorem missing_response_and_status_filters:
  "(Response r = None \<and> FilterOptions.Status opts \<noteq> 0 \<longrightarrow> r \<notin> set (Filter L s opts))
   \<and> (Response r = None \<longrightarrow>
        Filter_match L s (opts\<lparr>StatusRange := sr, StatusRanges := srs\<rparr>) r
          = Filter_match L s (opts\<lparr>StatusRange := [], StatusRanges := []\<rparr>) r)
   \<and> (Response r = None
        \<and> r \<in> set (Filter L s (opts\<lparr>StatusRange := [], StatusRanges := [], Limit := 0, Offset := 0\<rparr>))
      \<longrightarrow> r \<in> set (Filter L s (opts\<lparr>StatusRange := sr, StatusRanges := srs, Limit := 0, Offset := 0\<rparr>)))
   \<and> (Response r = None \<and> r \<in> set (Store.Requests s) \<and> TrimSpace L [] = []
      \<longrightarrow> r \<in> set (Filter L s (FilterOptions_zero\<lparr>StatusRange := sr, StatusRanges := srs\<rparr>)))"
proof -
  have 1: "Response r = None \<and> FilterOptions.Status opts \<noteq> 0 \<longrightarrow> r \<notin> set (Filter L s opts)"
  proof (intro impI notI)
    assume h: "Response r = None \<and> FilterOptions.Status opts \<noteq> 0" and "r \<in> set (Filter L s opts)"
    then have "Filter_match L s opts r"
      using Filter_subset_matches by blast
    with h show False
      by (simp add: Filter_match_def Let_def)
  qed
  have 2: "Response r = None \<longrightarrow>
        Filter_match L s (opts\<lparr>StatusRange := sr, StatusRanges := srs\<rparr>) r
          = Filter_match L s (opts\<lparr>StatusRange := [], StatusRanges := []\<rparr>) r"
    by (simp add: Filter_match_def Let_def)
  have 3: "Response r = None
        \<and> r \<in> set (Filter L s (opts\<lparr>StatusRange := [], StatusRanges := [], Limit := 0, Offset := 0\<rparr>))
      \<longrightarrow> r \<in> set (Filter L s (opts\<lparr>StatusRange := sr, StatusRanges := srs, Limit := 0, Offset := 0\<rparr>))"
    using 2 by (simp add: Filter_eq paginate_def)
  have 4: "Response r = None \<and> r \<in> set (Store.Requests s) \<and> TrimSpace L [] = []
      \<longrightarrow> r \<in> set (Filter L s (FilterOptions_zero\<lparr>StatusRange := sr, StatusRanges := srs\<rparr>))"
    by (simp add: Filter_eq paginate_def FilterOptions_zero_def Filter_match_def)
  from 1 2 3 4 show ?thesis
    by blast
qed

theorem missing_response_and_status_filters_witness:
  "Response ((req0 ''3'' ''GET'' ''https://b.example/'' None)
       \<lparr>Request.Domain := ''b.example'', Request.Path := ''/''\<rparr>) = None
   \<and> (req0 ''3'' ''GET'' ''https://b.example/'' None)
       \<lparr>Request.Domain := ''b.example'', Request.Path := ''/''\<rparr> \<in> set (Store.Requests store0)
   \<and> TrimSpace lib0 [] = []
   \<and> (req0 ''3'' ''GET'' ''https://b.example/'' None)
       \<lparr>Request.Domain := ''b.example'', Request.Path := ''/''\<rparr>
        \<notin> set (Filter lib0 store0 (FilterOptions_zero\<lparr>FilterOptions.Status := 404\<rparr>))
   \<and> (req0 ''3'' ''GET'' ''https://b.example/'' None)
       \<lparr>Request.Domain := ''b.example'', Request.Path := ''/''\<rparr>
        \<in> set (Filter lib0 store0 (FilterOptions_zero\<lparr>StatusRange := ''4xx'', StatusRanges := [''4xx'', ''5xx'']\<rparr>))
   \<and> map Request.ID (Filter lib0 store0 (FilterOptions_zero\<lparr>FilterOptions.Status := 404\<rparr>)) = [''2'']
   \<and> map Request.ID (Filter lib0 store0 (FilterOptions_zero\<lparr>StatusRanges := [''4xx'', ''5xx'']\<rparr>))
       = [''2'', ''3'', ''4'']
   \<and> map Request.ID (Filter lib0 store0 (FilterOptions_zero\<lparr>StatusRange := ''4xx''\<rparr>))
       = [''2'', ''3'']"
proof -
  let ?r = "(req0 ''3'' ''GET'' ''https://b.example/'' None)
              \<lparr>Request.Domain := ''b.example'', Request.Path := ''/''\<rparr>"
  have a: "Response ?r = None"
    by (simp add: req0_def)
  have b: "?r \<in> set (Store.Requests store0)"
    by (simp add: store0_Requests)
  have c: "TrimSpace lib0 [] = []"
    by (simp add: lib0_def)
  have d: "FilterOptions.Status (FilterOptions_zero\<lparr>FilterOptions.Status := 404\<rparr>) \<noteq> 0"
    by simp
  have e: "?r \<notin> set (Filter lib0 store0 (FilterOptions_zero\<lparr>FilterOptions.Status := 404\<rparr>))"
    by (rule missing_response_and_status_filters [THEN conjunct1, rule_format]) (intro conjI a d)
  have f: "?r \<in> set (Filter lib0 store0
             (FilterOptions_zero\<lparr>StatusRange := ''4xx'', StatusRanges := [''4xx'', ''5xx'']\<rparr>))"
    by (rule missing_response_and_status_filters
               [THEN conjunct2, THEN conjunct2, THEN conjunct2, rule_format])
       (intro conjI a b c)
  have g: "map Request.ID (Filter lib0 store0 (FilterOptions_zero\<lparr>FilterOptions.Status := 404\<rparr>)) = [''2'']"
    by (simp add: example_defs)
  have h: "map Request.ID (Filter lib0 store0 (FilterOptions_zero\<lparr>StatusRanges := [''4xx'', ''5xx'']\<rparr>))
             = [''2'', ''3'', ''4'']"
    by (simp add: example_defs)
  have i: "map Request.ID (Filter lib0 store0 (FilterOptions_zero\<lparr>StatusRange := ''4xx''\<rparr>))
             = [''2'', ''3'']"
    by (simp add: example_defs)
  show ?thesis
    by (intro conjI a b c e f g h i)
qed

subsection \<open>Derived fields and loading\<close>

lemma ComputeRequestFields_idem:
  "ComputeRequestFields L (ComputeRequestFields L r) = ComputeRequestFields L r"
  by (simp add: ComputeRequestFields_def split: option.splits)

lemma Load_sessions_computed:
  assumes "Load L env = Inr st" and "sess \<in> set (Sessions st)" and "q \<in> set (Session.Requests sess)"
  shows "ComputeRequestFields L q = q"
proof -
  from assms(1) have "st = NewStore \<or> (\<exists>st1. st = st1\<lparr>Sessions :=
        map (\<lambda>sess. sess\<lparr>Session.Requests := map (ComputeRequestFields L) (Session.Requests sess)\<rparr>)
            (Sessions st1)\<rparr>)"
    by (auto simp: Load_def Let_def split: sum.splits read_error.splits)
  then show ?thesis
  proof
    assume "st = NewStore"
    with assms(2) show ?thesis by (simp add: NewStore_def)
  next
    assume "\<exists>st1. st = st1\<lparr>Sessions :=
        map (\<lambda>sess. sess\<lparr>Session.Requests := map (ComputeRequestFields L) (Session.Requests sess)\<rparr>)
            (Sessions st1)\<rparr>"
    with assms(2,3) show ?thesis
      by (auto simp: ComputeRequestFields_idem)
  qed
qed

text \<open>
  C10. For a request whose URL parses with a non-empty query, \<^verbatim>\<open>NewTempStore\<close> sets Path
  to the path component alone while \<^verbatim>\<open>ComputeRequestFields\<close> sets it to the path, a question
  mark and the query, so the two derived paths differ; both set Domain to the host.
  \<^verbatim>\<open>AddSession\<close> and \<^verbatim>\<open>Load\<close> derive the fields of session requests with
  \<^verbatim>\<open>ComputeRequestFields\<close>. When the URL does not parse, both leave the request as it is, so
  Domain and Path, which are never decoded from a file, stay empty.
\<close>

theorem temp_store_path_has_no_query:
  "(i < length rs \<and> url_Parse L (Request.URL (rs ! i)) = Some u \<and> RawQuery u \<noteq> [] \<longrightarrow>
      Store.Requests (NewTempStore L rs) ! i
        = (rs ! i)\<lparr>Request.Domain := Host u, Request.Path := URL.Path u\<rparr>
      \<and> ComputeRequestFields L (rs ! i)
        = (rs ! i)\<lparr>Request.Domain := Host u,
                    Request.Path := URL.Path u @ ''?'' @ RawQuery u\<rparr>
      \<and> Request.Path (Store.Requests (NewTempStore L rs) ! i)
        \<noteq> Request.Path (ComputeRequestFields L (rs ! i)))
   \<and> (i < length rs \<and> url_Parse L (Request.URL (rs ! i)) = None \<longrightarrow>
      Store.Requests (NewTempStore L rs) ! i = rs ! i
      \<and> ComputeRequestFields L (rs ! i) = rs ! i
      \<and> (Request.Domain (rs ! i) = [] \<and> Request.Path (rs ! i) = [] \<longrightarrow>
           Request.Domain (Store.Requests (NewTempStore L rs) ! i) = []
           \<and> Request.Path (Store.Requests (NewTempStore L rs) ! i) = []
           \<and> Request.Domain (ComputeRequestFields L (rs ! i)) = []
           \<and> Request.Path (ComputeRequestFields L (rs ! i)) = []))
   \<and> Session.Requests (fst (AddSession L now s sid note rs)) = map (ComputeRequestFields L) rs
   \<and> (Load L env = Inr st \<and> sess \<in> set (Sessions st) \<and> q \<in> set (Session.Requests sess) \<longrightarrow>
        ComputeRequestFields L q = q)"
proof -
  have 1: "i < length rs \<and> url_Parse L (Request.URL (rs ! i)) = Some u \<and> RawQuery u \<noteq> [] \<longrightarrow>
      Store.Requests (NewTempStore L rs) ! i
        = (rs ! i)\<lparr>Request.Domain := Host u, Request.Path := URL.Path u\<rparr>
      \<and> ComputeRequestFields L (rs ! i)
        = (rs ! i)\<lparr>Request.Domain := Host u,
                    Request.Path := URL.Path u @ ''?'' @ RawQuery u\<rparr>
      \<and> Request.Path (Store.Requests (NewTempStore L rs) ! i)
        \<noteq> Request.Path (ComputeRequestFields L (rs ! i))"
    by (simp add: NewTempStore_def NewStore_def ComputeRequestFields_def)
  have 2: "i < length rs \<and> url_Parse L (Request.URL (rs ! i)) = None \<longrightarrow>
      Store.Requests (NewTempStore L rs) ! i = rs ! i
      \<and> ComputeRequestFields L (rs ! i) = rs ! i
      \<and> (Request.Domain (rs ! i) = [] \<and> Request.Path (rs ! i) = [] \<longrightarrow>
           Request.Domain (Store.Requests (NewTempStore L rs) ! i) = []
           \<and> Request.Path (Store.Requests (NewTempStore L rs) ! i) = []
           \<and> Request.Domain (ComputeRequestFields L (rs ! i)) = []
           \<and> Request.Path (ComputeRequestFields L (rs ! i)) = [])"
    by (simp add: NewTempStore_def NewStore_def ComputeRequestFields_def)
  have 3: "Session.Requests (fst (AddSession L now s sid note rs)) = map (ComputeRequestFields L) rs"
    by (simp add: AddSession_def Let_def)
  have 4: "Load L env = Inr st \<and> sess \<in> set (Sessions st) \<and> q \<in> set (Session.Requests sess) \<longrightarrow>
        ComputeRequestFields L q = q"
    using Load_sessions_computed by blast
  from 1 2 3 4 show ?thesis
    by (intro conjI)
qed

theorem temp_store_path_has_no_query_witness:
  "(0::nat) < length [req0 ''1'' ''GET'' ''https://a.example/x?q=1'' (Some 200)]
   \<and> url_Parse lib0 (Request.URL ([req0 ''1'' ''GET'' ''https://a.example/x?q=1'' (Some 200)] ! 0))
       = Some \<lparr>Host = ''a.example'', Path = ''/x'', RawQuery = ''q=1''\<rparr>
   \<and> RawQuery \<lparr>Host = ''a.example'', Path = ''/x'', RawQuery = ''q=1''\<rparr> \<noteq> []
   \<and> Request.Path (Store.Requests
         (NewTempStore lib0 [req0 ''1'' ''GET'' ''https://a.example/x?q=1'' (Some 200)]) ! 0) = ''/x''
   \<and> Request.Path (ComputeRequestFields lib0
         ([req0 ''1'' ''GET'' ''https://a.example/x?q=1'' (Some 200)] ! 0)) = ''/x?q=1''
   \<and> (0::nat) < length [req0 ''5'' ''GET'' ''%zz'' None]
   \<and> url_Parse lib0 (Request.URL ([req0 ''5'' ''GET'' ''%zz'' None] ! 0)) = None
   \<and> Request.Domain ([req0 ''5'' ''GET'' ''%zz'' None] ! 0) = []
   \<and> Request.Path ([req0 ''5'' ''GET'' ''%zz'' None] ! 0) = []
   \<and> Request.Domain (Store.Requests (NewTempStore lib0 [req0 ''5'' ''GET'' ''%zz'' None]) ! 0) = []
   \<and> Request.Path (ComputeRequestFields lib0 ([req0 ''5'' ''GET'' ''%zz'' None] ! 0)) = []"
proof -
  let ?u = "\<lparr>Host = ''a.example'', Path = ''/x'', RawQuery = ''q=1''\<rparr>"
  let ?rs = "[req0 ''1'' ''GET'' ''https://a.example/x?q=1'' (Some 200)]"
  let ?bad = "[req0 ''5'' ''GET'' ''%zz'' None]"
  have a: "(0::nat) < length ?rs" and b: "url_Parse lib0 (Request.URL (?rs ! 0)) = Some ?u"
    and c: "RawQuery ?u \<noteq> []"
    by (simp_all add: lib0_def url_Parse0_def req0_def)
  have d: "(0::nat) < length ?bad" and e: "url_Parse lib0 (Request.URL (?bad ! 0)) = None"
    and f: "Request.Domain (?bad ! 0) = []" and g: "Request.Path (?bad ! 0) = []"
    by (simp_all add: lib0_def url_Parse0_def req0_def Request_zero_def)
  note T = temp_store_path_has_no_query [of 0 ?rs lib0 ?u]
  note U = temp_store_path_has_no_query [of 0 ?bad lib0]
  from T a b c have h: "Request.Path (Store.Requests (NewTempStore lib0 ?rs) ! 0) = ''/x''"
    and i: "Request.Path (ComputeRequestFields lib0 (?rs ! 0)) = ''/x?q=1''"
    by simp_all
  from U d e f g have j: "Request.Domain (Store.Requests (NewTempStore lib0 ?bad) ! 0) = []"
    and k: "Request.Path (ComputeRequestFields lib0 (?bad ! 0)) = []"
    by simp_all
  show ?thesis
    by (intro conjI a b c h i d e f g j k)
qed

lemma Load_decoded:
  "GetStoreFilePath env = Inr fp \<Longrightarrow> ReadFile env fp = Inr data \<Longrightarrow>
   sonic_Unmarshal env data NewStore = Inr d \<Longrightarrow>
   Load L env =
     Inr ((migrate L env d)\<lparr>Sessions :=
            map (\<lambda>sess. sess\<lparr>Session.Requests :=
                    map (ComputeRequestFields L) (Session.Requests sess)\<rparr>)
                (Sessions (migrate L env d))\<rparr>)"
  by (simp add: Load_def Let_def)

text \<open>
  C4. Let the store file decode to \<open>d\<close>. When \<open>d\<close> has legacy requests and no session,
  \<^verbatim>\<open>Load\<close> returns \<open>d\<close> with exactly one session, whose ID is \<^verbatim>\<open>migrated-\<close> followed by
  today's date and whose requests are the legacy requests with their derived fields
  computed, and with both legacy fields cleared. In every other case, in particular when
  \<open>d\<close> has legacy requests and at least one session, no session is synthesized: the
  sessions keep their number and their IDs and the legacy fields stay as they are. The
  migrated store has no legacy request and a session, so a file that decodes to it
  loads to the same store: a second load does not migrate again.
\<close>

theorem Load_migrates_once:
  assumes "GetStoreFilePath env = Inr fp" and "ReadFile env fp = Inr data"
    and "sonic_Unmarshal env data NewStore = Inr d"
  shows "(length (Store.Requests d) > 0 \<and> length (Sessions d) = 0 \<longrightarrow>
            Load L env =
              Inr (d\<lparr>Sessions :=
                        [\<lparr>Session.ID = ''migrated-'' @ today_20060102 env,
                          Timestamp = now_UnixMilli env,
                          Note = ''Auto-migrated from old format'',
                          Requests = map (ComputeRequestFields L) (Store.Requests d)\<rparr>],
                      Store.Requests := [], LastImport := 0\<rparr>))
       \<and> (\<not> (length (Store.Requests d) > 0 \<and> length (Sessions d) = 0) \<longrightarrow>
            (\<exists>st. Load L env = Inr st
               \<and> map Session.ID (Sessions st) = map Session.ID (Sessions d)
               \<and> length (Sessions st) = length (Sessions d)
               \<and> Store.Requests st = Store.Requests d \<and> LastImport st = LastImport d))
       \<and> (length (Store.Requests d) > 0 \<and> length (Sessions d) = 0
            \<and> Load L env = Inr st
            \<and> GetStoreFilePath env' = Inr fp' \<and> ReadFile env' fp' = Inr data'
            \<and> sonic_Unmarshal env' data' NewStore = Inr st \<longrightarrow>
            Store.Requests st = [] \<and> length (Sessions st) = 1 \<and> Load L env' = Inr st)"
proof -
  note L = Load_decoded [OF assms, of L]
  have 1: "length (Store.Requests d) > 0 \<and> length (Sessions d) = 0 \<longrightarrow>
            Load L env =
              Inr (d\<lparr>Sessions :=
                        [\<lparr>Session.ID = ''migrated-'' @ today_20060102 env,
                          Timestamp = now_UnixMilli env,
                          Note = ''Auto-migrated from old format'',
                          Requests = map (ComputeRequestFields L) (Store.Requests d)\<rparr>],
                      Store.Requests := [], LastImport := 0\<rparr>)"
    by (simp add: L migrate_def Let_def ComputeRequestFields_idem)
  have 2: "\<not> (length (Store.Requests d) > 0 \<and> length (Sessions d) = 0) \<longrightarrow>
            (\<exists>st. Load L env = Inr st
               \<and> map Session.ID (Sessions st) = map Session.ID (Sessions d)
               \<and> length (Sessions st) = length (Sessions d)
               \<and> Store.Requests st = Store.Requests d \<and> LastImport st = LastImport d)"
    by (auto simp: L migrate_def Let_def comp_def)
  have 3: "length (Store.Requests d) > 0 \<and> length (Sessions d) = 0
            \<and> Load L env = Inr st
            \<and> GetStoreFilePath env' = Inr fp' \<and> ReadFile env' fp' = Inr data'
            \<and> sonic_Unmarshal env' data' NewStore = Inr st \<longrightarrow>
            Store.Requests st = [] \<and> length (Sessions st) = 1 \<and> Load L env' = Inr st"
  proof (intro impI)
    assume h: "length (Store.Requests d) > 0 \<and> length (Sessions d) = 0
            \<and> Load L env = Inr st
            \<and> GetStoreFilePath env' = Inr fp' \<and> ReadFile env' fp' = Inr data'
            \<and> sonic_Unmarshal env' data' NewStore = Inr st"
    with 1 have st: "st = d\<lparr>Sessions :=
                        [\<lparr>Session.ID = ''migrated-'' @ today_20060102 env,
                          Timestamp = now_UnixMilli env,
                          Note = ''Auto-migrated from old format'',
                          Requests = map (ComputeRequestFields L) (Store.Requests d)\<rparr>],
                      Store.Requests := [], LastImport := 0\<rparr>"
      by simp
    from h have "Load L env' =
       Inr ((migrate L env' st)\<lparr>Sessions :=
            map (\<lambda>sess. sess\<lparr>Session.Requests :=
                    map (ComputeRequestFields L) (Session.Requests sess)\<rparr>)
                (Sessions (migrate L env' st))\<rparr>)"
      using Load_decoded by blast
    then have "Load L env' = Inr st"
      by (simp add: st migrate_def ComputeRequestFields_idem)
    then show "Store.Requests st = [] \<and> length (Sessions st) = 1 \<and> Load L env' = Inr st"
      by (simp add: st)
  qed
  from 1 2 3 show ?thesis
    by (intro conjI)
qed

theorem Load_migrates_once_witness:
  "GetStoreFilePath loadenv0 = Inr ''/data/rep-cli/store.json''
   \<and> ReadFile loadenv0 ''/data/rep-cli/store.json'' = Inr ''legacy''
   \<and> sonic_Unmarshal loadenv0 ''legacy'' NewStore
       = Inr (NewStore\<lparr>Store.Requests := legacy0, LastImport := 5\<rparr>)
   \<and> length (Store.Requests (NewStore\<lparr>Store.Requests := legacy0, LastImport := 5\<rparr>)) > 0
   \<and> length (Sessions (NewStore\<lparr>Store.Requests := legacy0, LastImport := 5\<rparr>)) = 0
   \<and> Load lib0 loadenv0 =
        Inr (NewStore\<lparr>Sessions :=
               [\<lparr>Session.ID = ''migrated-20240102'', Timestamp = 1704153600000,
                 Note = ''Auto-migrated from old format'',
                 Requests = map (ComputeRequestFields lib0) legacy0\<rparr>]\<rparr>)"
proof -
  let ?d = "NewStore\<lparr>Store.Requests := legacy0, LastImport := 5\<rparr>"
  have a: "GetStoreFilePath loadenv0 = Inr ''/data/rep-cli/store.json''"
    and b: "ReadFile loadenv0 ''/data/rep-cli/store.json'' = Inr ''legacy''"
    and c: "sonic_Unmarshal loadenv0 ''legacy'' NewStore = Inr ?d"
    by (simp_all add: loadenv0_def)
  have d: "length (Store.Requests ?d) > 0" and e: "length (Sessions ?d) = 0"
    by (simp_all add: legacy0_def NewStore_def)
  from d e Load_migrates_once [OF a b c, of lib0]
  have f: "Load lib0 loadenv0 =
        Inr (NewStore\<lparr>Sessions :=
               [\<lparr>Session.ID = ''migrated-20240102'', Timestamp = 1704153600000,
                 Note = ''Auto-migrated from old format'',
                 Requests = map (ComputeRequestFields lib0) legacy0\<rparr>]\<rparr>)"
    by (simp add: loadenv0_def NewStore_def)
  show ?thesis
    by (intro conjI a b c d e f)
qed

subsection \<open>Chain reconstruction\<close>

lemma chain_loop_steps:
  "snd (chain_loop L s visited current links n)
     \<le> n + card (Request.ID ` set (Store.Requests s) - visited)
         + (case current of
              None \<Rightarrow> 0
            | Some c \<Rightarrow> if Request.ID c \<in> Request.ID ` set (Store.Requests s) then 0 else 1)"
proof (induction L s visited current links n rule: chain_loop.induct)
  case (1 L s visited links n)
  show ?case by (simp add: chain_loop.simps(1))
next
  case (2 L s visited current links n)
  let ?ids = "Request.ID ` set (Store.Requests s)"
  let ?flag = "if Request.ID current \<in> ?ids then 0 else (1::nat)"
  show ?case
  proof (cases "Request.ID current \<in> visited")
    case True
    then show ?thesis by (simp add: chain_loop.simps(2))
  next
    case nv: False
    have one: "1 \<le> card (?ids - visited) + ?flag"
    proof (cases "Request.ID current \<in> ?ids")
      case True
      with nv have "Request.ID current \<in> ?ids - visited" by simp
      then have "0 < card (?ids - visited)" by (auto simp: card_gt_0_iff)
      then show ?thesis by linarith
    next
      case False
      then show ?thesis by simp
    qed
    have shrink: "card (?ids - insert (Request.ID current) visited) + 1 \<le> card (?ids - visited) + ?flag"
    proof (cases "Request.ID current \<in> ?ids")
      case True
      with nv have "card (?ids - insert (Request.ID current) visited) < card (?ids - visited)"
        by (intro psubset_card_mono) auto
      with True show ?thesis by simp
    next
      case False
      then have "?ids - insert (Request.ID current) visited = ?ids - visited" by auto
      with False show ?thesis by simp
    qed
    show ?thesis
    proof (cases "Request.Initiator current = []")
      case True
      with nv one show ?thesis by (simp add: chain_loop.simps(2) Let_def)
    next
      case ini: False
      show ?thesis
      proof (cases "findRequestByURL L s (Request.Initiator current)")
        case None
        with nv ini one show ?thesis by (simp add: chain_loop.simps(2) Let_def)
      next
        case (Some parent)
        show ?thesis
        proof (cases "Request.ID parent = Request.ID current")
          case True
          with nv ini Some one show ?thesis by (simp add: chain_loop.simps(2) Let_def)
        next
          case False
          from Some have p: "Request.ID parent \<in> ?ids"
            using findRequestByURL_in_store by blast
          from "2.IH" [OF nv refl ini Some False]
          have "snd (chain_loop L s (insert (Request.ID current) visited) (Some parent)
                      (link_of current # links) (Suc n))
                  \<le> Suc n + card (?ids - insert (Request.ID current) visited)"
            using p by simp
          with shrink nv ini Some False show ?thesis
            by (simp add: chain_loop.simps(2) [of L s visited current links n] Let_def)
        qed
      qed
    qed
  qed
qed

lemma Filter_zero:
  "TrimSpace L [] = [] \<Longrightarrow> Filter L s FilterOptions_zero = Store.Requests s"
  by (simp add: Filter_eq paginate_def FilterOptions_zero_def Filter_match_def)

text \<open>
  The walk from the call back to the document gives the path from the document to the
  call, in three steps.
\<close>

lemma chain_example_path:
  "Links (buildChainForRequest lib0 (NewStore\<lparr>Store.Requests := [chain_r1, chain_r2, chain_r3]\<rparr>) chain_r3)
     = [link_of chain_r1, link_of chain_r2, link_of chain_r3]
   \<and> buildChain_steps lib0 (NewStore\<lparr>Store.Requests := [chain_r1, chain_r2, chain_r3]\<rparr>) chain_r3 = 3"
proof -
  let ?s = "NewStore\<lparr>Store.Requests := [chain_r1, chain_r2, chain_r3]\<rparr>"
  have t: "TrimSpace lib0 [] = []"
    by (simp add: lib0_def)
  have f1: "findRequestByURL lib0 ?s ''https://a.example/'' = Some chain_r1"
    and f2: "findRequestByURL lib0 ?s ''https://a.example/app.js'' = Some chain_r2"
    by (simp_all add: findRequestByURL_def Filter_zero [OF t] chain_r1_def chain_r2_def
                      chain_r3_def req0_def)
  have i: "Request.ID chain_r1 = ''r1''" "Request.Initiator chain_r1 = []"
    "Request.ID chain_r2 = ''r2''" "Request.Initiator chain_r2 = ''https://a.example/''"
    "Request.ID chain_r3 = ''r3''" "Request.Initiator chain_r3 = ''https://a.example/app.js''"
    by (simp_all add: chain_r1_def chain_r2_def chain_r3_def req0_def Request_zero_def)
  have "chain_loop lib0 ?s {} (Some chain_r3) [] 0
          = ([link_of chain_r1, link_of chain_r2, link_of chain_r3], 3)"
    by (simp add: chain_loop.simps Let_def f1 f2 i)
  then show ?thesis
    by (simp add: buildChainForRequest_def buildChain_steps_def)
qed

text \<open>
  C6. \<^verbatim>\<open>buildChainForRequest\<close> is total (the loop is a function with a termination
  proof), and its loop body runs at most (number of distinct request IDs in the store + 1)
  times, hence at most (number of distinct requests + 1) times, and at most (number of
  distinct IDs) times when the target's ID is an ID of the store; a walk that reaches an
  ID in the visited set stops at once, leaving the links and the count as they are.
\<close>

theorem chain_terminates_within_bound:
  "buildChain_steps L s req \<le> card (Request.ID ` set (Store.Requests s)) + 1
   \<and> buildChain_steps L s req \<le> card (set (Store.Requests s)) + 1
   \<and> (Request.ID req \<in> Request.ID ` set (Store.Requests s) \<longrightarrow>
         buildChain_steps L s req \<le> card (Request.ID ` set (Store.Requests s)))
   \<and> (Request.ID c \<in> visited \<longrightarrow> chain_loop L s visited (Some c) links n = (links, n))"
proof -
  let ?ids = "Request.ID ` set (Store.Requests s)"
  from chain_loop_steps [of L s "{}" "Some req" "[]" 0]
  have b: "buildChain_steps L s req
             \<le> card ?ids + (if Request.ID req \<in> ?ids then 0 else 1)"
    by (simp add: buildChain_steps_def)
  then have 1: "buildChain_steps L s req \<le> card ?ids + 1"
    by (simp split: if_splits)
  have "card ?ids \<le> card (set (Store.Requests s))"
    by (rule card_image_le) simp
  with 1 have 2: "buildChain_steps L s req \<le> card (set (Store.Requests s)) + 1"
    by simp
  from b have 3: "Request.ID req \<in> ?ids \<longrightarrow> buildChain_steps L s req \<le> card ?ids"
    by auto
  have 4: "Request.ID c \<in> visited \<longrightarrow> chain_loop L s visited (Some c) links n = (links, n)"
    by (simp add: chain_loop.simps(2))
  from 1 2 3 4 show ?thesis
    by (intro conjI)
qed

theorem chain_terminates_within_bound_witness:
  "Request.ID cyc_a \<in> Request.ID ` set (Store.Requests cyc0)
   \<and> buildChain_steps lib0 cyc0 cyc_a = 2
   \<and> buildChain_steps lib0 cyc0 cyc_a \<le> card (Request.ID ` set (Store.Requests cyc0))
   \<and> map ChainLink.ID (Links (buildChainForRequest lib0 cyc0 cyc_a)) = [''b'', ''a'']
   \<and> Request.ID cyc_a \<in> {''a'', ''b''}
   \<and> chain_loop lib0 cyc0 {''a'', ''b''} (Some cyc_a) [link_of cyc_b, link_of cyc_a] 2
       = ([link_of cyc_b, link_of cyc_a], 2)"
proof -
  have t: "TrimSpace lib0 [] = []"
    by (simp add: lib0_def)
  have fa: "findRequestByURL lib0 cyc0 ''https://a.example/a'' = Some cyc_a"
    and fb: "findRequestByURL lib0 cyc0 ''https://a.example/b'' = Some cyc_b"
    by (simp_all add: findRequestByURL_def Filter_zero [OF t] cyc0_def cyc_a_def cyc_b_def req0_def)
  have ia: "Request.ID cyc_a = ''a''" "Request.Initiator cyc_a = ''https://a.example/b''"
    and ib: "Request.ID cyc_b = ''b''" "Request.Initiator cyc_b = ''https://a.example/a''"
    by (simp_all add: cyc_a_def cyc_b_def req0_def)
  have run: "chain_loop lib0 cyc0 {} (Some cyc_a) [] 0 = ([link_of cyc_b, link_of cyc_a], 2)"
    by (simp add: chain_loop.simps Let_def fa fb ia ib)
  have a: "Request.ID cyc_a \<in> Request.ID ` set (Store.Requests cyc0)"
    by (simp add: cyc0_def)
  have b: "buildChain_steps lib0 cyc0 cyc_a = 2"
    by (simp add: buildChain_steps_def run)
  from a chain_terminates_within_bound [of lib0 cyc0 cyc_a cyc_a "{''a'', ''b''}"
                                           "[link_of cyc_b, link_of cyc_a]" 2]
  have c: "buildChain_steps lib0 cyc0 cyc_a \<le> card (Request.ID ` set (Store.Requests cyc0))"
    by simp
  have d: "map ChainLink.ID (Links (buildChainForRequest lib0 cyc0 cyc_a)) = [''b'', ''a'']"
    by (simp add: buildChainForRequest_def run link_of_def ia ib)
  have e: "Request.ID cyc_a \<in> {''a'', ''b''}"
    by (simp add: ia)
  from e chain_terminates_within_bound [of lib0 cyc0 cyc_a cyc_a "{''a'', ''b''}"
                                           "[link_of cyc_b, link_of cyc_a]" 2]
  have f: "chain_loop lib0 cyc0 {''a'', ''b''} (Some cyc_a) [link_of cyc_b, link_of cyc_a] 2
             = ([link_of cyc_b, link_of cyc_a], 2)"
    by simp
  show ?thesis
    by (intro conjI a b c d e f)
qed

subsection \<open>Header decoding\<close>

lemma those_JString: "those (map ((\<lambda>x. decode_string x []) \<circ> JString) vs) = Some vs"
  by (induction vs) simp_all

lemma fst_image_entries:
  "fst ` set (map (\<lambda>(k, v). (k, g v)) kvs) = fst ` set kvs"
  by (induction kvs) auto

lemma coerce_valid: "valid_utf8 s \<Longrightarrow> coerce_utf8 s = s"
proof (induction s rule: coerce_utf8.induct)
  case 1
  show ?case by simp
next
  case (2 c cs)
  from "2.prems" have n: "rune_size (c # cs) \<noteq> 0"
    and v: "valid_utf8 (drop (rune_size (c # cs) - 1) cs)"
    by simp_all
  from n obtain k where k: "rune_size (c # cs) = Suc k"
    by (cases "rune_size (c # cs)") simp_all
  from "2.IH"(2) [OF n] v have "coerce_utf8 (drop k cs) = drop k cs"
    by (simp add: k)
  then show ?case
    by (simp add: k)
qed

lemma map_coerce_valid:
  "list_all valid_utf8 vs \<Longrightarrow> map (\<lambda>s. JString (coerce_utf8 s)) vs = map JString vs"
  by (induction vs) (simp_all add: coerce_valid)

lemma decode_Marshal_values:
  "(case v of None \<Rightarrow> True | Some vs \<Rightarrow> list_all valid_utf8 vs) \<Longrightarrow>
   decode_strings (Marshal_values v) = Some (case v of None \<Rightarrow> [] | Some vs \<Rightarrow> vs)"
  by (cases v) (simp_all add: Marshal_values_def map_coerce_valid those_JString)

lemma decode_multi_fields_Marshal:
  "distinct (map fst kvs) \<Longrightarrow> valid_entries kvs \<Longrightarrow>
   decode_multi_fields (map (\<lambda>(k, v). (coerce_utf8 k, Marshal_values v)) kvs) m
     = Some (m ++ map_of (map (\<lambda>(k, v). (k, case v of None \<Rightarrow> [] | Some vs \<Rightarrow> vs)) kvs))"
proof (induction kvs arbitrary: m)
  case Nil
  show ?case by simp
next
  case (Cons kv kvs)
  obtain k v where kv: "kv = (k, v)" by (cases kv)
  let ?f = "\<lambda>(k, v). (k, case v of None \<Rightarrow> [] | Some vs \<Rightarrow> vs)"
  let ?val = "case v of None \<Rightarrow> [] | Some vs \<Rightarrow> vs"
  let ?E = "map_of (map ?f kvs)"
  from Cons.prems kv have d: "distinct (map fst kvs)" and nk: "k \<notin> fst ` set kvs"
    by simp_all
  from Cons.prems kv have vk: "valid_utf8 k"
    and vv: "case v of None \<Rightarrow> True | Some vs \<Rightarrow> list_all valid_utf8 vs"
    and ve: "valid_entries kvs"
    by (simp_all add: valid_entries_def)
  from nk have nd: "k \<notin> dom ?E"
    by (simp only: dom_map_of_conv_image_fst fst_image_entries not_False_eq_True)
  have "decode_multi_fields (map (\<lambda>(k, v). (coerce_utf8 k, Marshal_values v)) (kv # kvs)) m
          = decode_multi_fields (map (\<lambda>(k, v). (coerce_utf8 k, Marshal_values v)) kvs)
              (m(k \<mapsto> ?val))"
    by (simp add: kv decode_Marshal_values [OF vv] coerce_valid [OF vk])
  also have "\<dots> = Some (m(k \<mapsto> ?val) ++ ?E)"
    by (rule Cons.IH [OF d ve])
  also have "m(k \<mapsto> ?val) ++ ?E = (m ++ ?E)(k \<mapsto> ?val)"
    by (rule map_add_upd_left [OF nd])
  also have "\<dots> = m ++ ?E(k \<mapsto> ?val)"
    by (rule map_add_upd [symmetric])
  also have "?E(k \<mapsto> ?val) = map_of (map ?f (kv # kvs))"
    by (simp add: kv)
  finally show ?case .
qed

lemma convert_list_lookup:
  "convert_list items converted name =
     (if name \<noteq> [] \<and> name \<in> fst ` set items
      then Some ((case converted name of None \<Rightarrow> [] | Some vs \<Rightarrow> vs)
                 @ map snd (filter (\<lambda>kv. fst kv = name) items))
      else converted name)"
proof (induction items arbitrary: converted name)
  case Nil
  show ?case by simp
next
  case (Cons item items)
  obtain n v where item: "item = (n, v)" by (cases item)
  show ?case
    unfolding item by (auto simp: Cons.IH filter_empty_conv image_iff)
qed

lemma UnmarshalJSON_fails_iff:
  "(\<exists>e. UnmarshalJSON data = Inl e)
     \<longleftrightarrow> decode_multi data = None \<and> decode_single data = None \<and> decode_list data = None"
  by (cases "data = JNull") (auto simp: UnmarshalJSON_def split: option.splits)

lemmas header_defs =
  UnmarshalJSON_def UnmarshalJSON_single_first_def field_matches_def lower_ascii_def

text \<open>
  C5, as stated, fails in three places. A list of pairs that repeats a name decodes to a
  list of two values for that name, not to one-element lists. The map of lists is tried
  before the map of single values: a map whose value is \<^verbatim>\<open>null\<close> parses as both, and
  decodes to the empty list, where the order of the claim would give the one-element list
  of the empty string. And a header value that is not valid UTF-8, here the byte FF, is
  encoded as U+FFFD, so decoding the encoded map does not give the map back.
\<close>

theorem UnmarshalJSON_pairs_and_order_counterexample:
  "UnmarshalJSON
     (JArray [JObject [(''name'', JString ''Set-Cookie''), (''value'', JString ''a=1'')],
              JObject [(''name'', JString ''Set-Cookie''), (''value'', JString ''b=2'')]])
     = Inr [''Set-Cookie'' \<mapsto> [''a=1'', ''b=2'']]
   \<and> length [''a=1'', ''b=2''] \<noteq> 1
   \<and> UnmarshalJSON (JObject [(''X-Empty'', JNull)]) = Inr [''X-Empty'' \<mapsto> []]
   \<and> UnmarshalJSON_single_first (JObject [(''X-Empty'', JNull)]) = Inr [''X-Empty'' \<mapsto> [[]]]
   \<and> UnmarshalJSON (JObject [(''X-Empty'', JNull)])
       \<noteq> UnmarshalJSON_single_first (JObject [(''X-Empty'', JNull)])
   \<and> UnmarshalJSON (Marshal_HeaderMap (Some [(''X-Bin'', Some [[CHR 0xFF]])]))
       = Inr [''X-Bin'' \<mapsto> [[CHR 0xEF, CHR 0xBF, CHR 0xBD]]]
   \<and> HeaderMap_of (Some [(''X-Bin'', Some [[CHR 0xFF]])]) = [''X-Bin'' \<mapsto> [[CHR 0xFF]]]
   \<and> UnmarshalJSON (Marshal_HeaderMap (Some [(''X-Bin'', Some [[CHR 0xFF]])]))
       \<noteq> Inr (HeaderMap_of (Some [(''X-Bin'', Some [[CHR 0xFF]])]))"
proof -
  have a: "UnmarshalJSON
     (JArray [JObject [(''name'', JString ''Set-Cookie''), (''value'', JString ''a=1'')],
              JObject [(''name'', JString ''Set-Cookie''), (''value'', JString ''b=2'')]])
     = Inr [''Set-Cookie'' \<mapsto> [''a=1'', ''b=2'']]"
    by (simp add: header_defs)
  have b: "length [''a=1'', ''b=2''] \<noteq> 1"
    by simp
  have c: "UnmarshalJSON (JObject [(''X-Empty'', JNull)]) = Inr [''X-Empty'' \<mapsto> []]"
    by (simp add: header_defs)
  have d: "UnmarshalJSON_single_first (JObject [(''X-Empty'', JNull)]) = Inr [''X-Empty'' \<mapsto> [[]]]"
    by (simp add: header_defs fun_eq_iff)
  have "[''X-Empty'' \<mapsto> []] ''X-Empty'' \<noteq> [''X-Empty'' \<mapsto> [[]::string]] ''X-Empty''"
    by simp
  then have "[''X-Empty'' \<mapsto> []] \<noteq> [''X-Empty'' \<mapsto> [[]::string]]"
    by metis
  then have e: "UnmarshalJSON (JObject [(''X-Empty'', JNull)])
       \<noteq> UnmarshalJSON_single_first (JObject [(''X-Empty'', JNull)])"
    by (simp only: c d sum.inject not_False_eq_True)
  have k: "coerce_utf8 ''X-Bin'' = ''X-Bin''"
    by (simp add: rune_size_def)
  have v: "coerce_utf8 [CHR 0xFF] = [CHR 0xEF, CHR 0xBF, CHR 0xBD]"
    by (simp add: rune_size_def)
  have f: "UnmarshalJSON (Marshal_HeaderMap (Some [(''X-Bin'', Some [[CHR 0xFF]])]))
             = Inr [''X-Bin'' \<mapsto> [[CHR 0xEF, CHR 0xBF, CHR 0xBD]]]"
    by (simp add: UnmarshalJSON_def Marshal_HeaderMap_def Marshal_values_def k v
             del: coerce_utf8.simps)
  have g: "HeaderMap_of (Some [(''X-Bin'', Some [[CHR 0xFF]])]) = [''X-Bin'' \<mapsto> [[CHR 0xFF]]]"
    by (simp add: HeaderMap_of_def)
  have "[''X-Bin'' \<mapsto> [[CHR 0xEF, CHR 0xBF, CHR 0xBD]]] ''X-Bin''
          \<noteq> [''X-Bin'' \<mapsto> [[CHR 0xFF]]] ''X-Bin''"
    by simp
  then have "[''X-Bin'' \<mapsto> [[CHR 0xEF, CHR 0xBF, CHR 0xBD]]] \<noteq> [''X-Bin'' \<mapsto> [[CHR 0xFF]]]"
    by metis
  then have h: "UnmarshalJSON (Marshal_HeaderMap (Some [(''X-Bin'', Some [[CHR 0xFF]])]))
       \<noteq> Inr (HeaderMap_of (Some [(''X-Bin'', Some [[CHR 0xFF]])]))"
    by (simp only: f g sum.inject not_False_eq_True)
  show ?thesis
    by (intro conjI a b c d e f g h)
qed

text \<open>
  C5, amended. \<^verbatim>\<open>UnmarshalJSON\<close> tries three encodings in this order: a map of name to
  list of values, a map of name to single value, a list of name and value pairs; the
  result is that of the first one that parses, and it fails exactly when none parses
  (\<^verbatim>\<open>null\<close> parses as the first and gives the empty map). The results are maps of name to
  list of values: a map of single values gives the one-element list of each value; a
  list of pairs gives, for each non-empty name in it, the list of the values of its
  pairs in their order (one value when the name occurs once), and drops the pairs with
  an empty name. Encoding a header map whose keys are distinct and whose keys and values
  are valid UTF-8, and decoding the result, gives the same map.
\<close>

theorem UnmarshalJSON_normalizes:
  "(decode_multi data = Some multi \<longrightarrow> UnmarshalJSON data = Inr multi)
   \<and> (decode_multi data = None \<and> decode_single data = Some single \<longrightarrow>
        UnmarshalJSON data = Inr (\<lambda>k. map_option (\<lambda>v. [v]) (single k)))
   \<and> (decode_multi data = None \<and> decode_single data = None \<and> decode_list data = Some list \<longrightarrow>
        UnmarshalJSON data = Inr (convert_list list Map.empty)
        \<and> convert_list list Map.empty [] = None
        \<and> (\<forall>name. name \<noteq> [] \<longrightarrow>
              convert_list list Map.empty name
                = (if name \<in> fst ` set list
                   then Some (map snd (filter (\<lambda>kv. fst kv = name) list)) else None)))
   \<and> ((\<exists>e. UnmarshalJSON data = Inl e)
        \<longleftrightarrow> decode_multi data = None \<and> decode_single data = None \<and> decode_list data = None)
   \<and> ((case h of None \<Rightarrow> True | Some kvs \<Rightarrow> distinct (map fst kvs) \<and> valid_entries kvs) \<longrightarrow>
        UnmarshalJSON (Marshal_HeaderMap h) = Inr (HeaderMap_of h))"
proof -
  have 1: "decode_multi data = Some multi \<longrightarrow> UnmarshalJSON data = Inr multi"
    by (cases "data = JNull") (auto simp: UnmarshalJSON_def)
  have 2: "decode_multi data = None \<and> decode_single data = Some single \<longrightarrow>
        UnmarshalJSON data = Inr (\<lambda>k. map_option (\<lambda>v. [v]) (single k))"
    by (cases "data = JNull") (auto simp: UnmarshalJSON_def)
  have 3: "decode_multi data = None \<and> decode_single data = None \<and> decode_list data = Some list \<longrightarrow>
        UnmarshalJSON data = Inr (convert_list list Map.empty)
        \<and> convert_list list Map.empty [] = None
        \<and> (\<forall>name. name \<noteq> [] \<longrightarrow>
              convert_list list Map.empty name
                = (if name \<in> fst ` set list
                   then Some (map snd (filter (\<lambda>kv. fst kv = name) list)) else None))"
    by (cases "data = JNull") (auto simp: UnmarshalJSON_def convert_list_lookup)
  have 5: "(case h of None \<Rightarrow> True | Some kvs \<Rightarrow> distinct (map fst kvs) \<and> valid_entries kvs) \<longrightarrow>
        UnmarshalJSON (Marshal_HeaderMap h) = Inr (HeaderMap_of h)"
  proof (cases h)
    case None
    then show ?thesis
      by (simp add: UnmarshalJSON_def Marshal_HeaderMap_def HeaderMap_of_def)
  next
    case (Some kvs)
    then show ?thesis
      by (simp add: UnmarshalJSON_def Marshal_HeaderMap_def HeaderMap_of_def
                    decode_multi_fields_Marshal)
  qed
  from 1 2 3 UnmarshalJSON_fails_iff [of data] 5 show ?thesis
    by (intro conjI)
qed

theorem UnmarshalJSON_normalizes_witness:
  "decode_multi (JObject [(''Host'', JString ''a.example'')]) = None
   \<and> decode_single (JObject [(''Host'', JString ''a.example'')]) = Some [''Host'' \<mapsto> ''a.example'']
   \<and> UnmarshalJSON (JObject [(''Host'', JString ''a.example'')]) = Inr [''Host'' \<mapsto> [''a.example'']]
   \<and> decode_multi (JArray [JObject [(''name'', JString ''Accept''), (''value'', JString ''*/*'')]]) = None
   \<and> decode_single (JArray [JObject [(''name'', JString ''Accept''), (''value'', JString ''*/*'')]]) = None
   \<and> decode_list (JArray [JObject [(''name'', JString ''Accept''), (''value'', JString ''*/*'')]])
       = Some [(''Accept'', ''*/*'')]
   \<and> UnmarshalJSON (JArray [JObject [(''name'', JString ''Accept''), (''value'', JString ''*/*'')]])
       = Inr [''Accept'' \<mapsto> [''*/*'']]
   \<and> distinct (map fst [(''Accept'', Some [''text/html'', ''*/*'']), (''X-Nil'', None)])
   \<and> valid_entries [(''Accept'', Some [''text/html'', ''*/*'']), (''X-Nil'', None)]
   \<and> UnmarshalJSON (Marshal_HeaderMap (Some [(''Accept'', Some [''text/html'', ''*/*'']), (''X-Nil'', None)]))
       = Inr [''Accept'' \<mapsto> [''text/html'', ''*/*''], ''X-Nil'' \<mapsto> []]
   \<and> decode_multi (JString ''x'') = None \<and> decode_single (JString ''x'') = None
   \<and> decode_list (JString ''x'') = None
   \<and> UnmarshalJSON (JString ''x'') = Inl ''unsupported header format''"
proof -
  let ?d1 = "JObject [(''Host'', JString ''a.example'')]"
  let ?d2 = "JArray [JObject [(''name'', JString ''Accept''), (''value'', JString ''*/*'')]]"
  let ?h = "Some [(''Accept'', Some [''text/html'', ''*/*'']), (''X-Nil'', None)]"
  have a1: "decode_multi ?d1 = None" and a2: "decode_single ?d1 = Some [''Host'' \<mapsto> ''a.example'']"
    by simp_all
  have "UnmarshalJSON ?d1 = Inr (\<lambda>k. map_option (\<lambda>v. [v]) ([''Host'' \<mapsto> ''a.example''] k))"
    by (rule UnmarshalJSON_normalizes [THEN conjunct2, THEN conjunct1, rule_format])
       (intro conjI a1 a2)
  then have a3: "UnmarshalJSON ?d1 = Inr [''Host'' \<mapsto> [''a.example'']]"
    by (simp add: fun_eq_iff)
  have b1: "decode_multi ?d2 = None" and b2: "decode_single ?d2 = None"
    and b3: "decode_list ?d2 = Some [(''Accept'', ''*/*'')]"
    by (simp_all add: field_matches_def lower_ascii_def)
  have "UnmarshalJSON ?d2 = Inr (convert_list [(''Accept'', ''*/*'')] Map.empty)"
    by (rule UnmarshalJSON_normalizes
               [THEN conjunct2, THEN conjunct2, THEN conjunct1, rule_format, THEN conjunct1])
       (intro conjI b1 b2 b3)
  then have b4: "UnmarshalJSON ?d2 = Inr [''Accept'' \<mapsto> [''*/*'']]"
    by simp
  have c1: "distinct (map fst [(''Accept'', Some [''text/html'', ''*/*'']), (''X-Nil'', None :: string list option)])"
    by simp
  have c3: "valid_entries [(''Accept'', Some [''text/html'', ''*/*'']), (''X-Nil'', None)]"
    by (simp add: valid_entries_def rune_size_def)
  from c1 c3 have c0: "case ?h of None \<Rightarrow> True | Some kvs \<Rightarrow> distinct (map fst kvs) \<and> valid_entries kvs"
    by simp
  have "UnmarshalJSON (Marshal_HeaderMap ?h) = Inr (HeaderMap_of ?h)"
    by (rule UnmarshalJSON_normalizes
               [THEN conjunct2, THEN conjunct2, THEN conjunct2, THEN conjunct2, rule_format])
       (rule c0)
  then have c2: "UnmarshalJSON (Marshal_HeaderMap ?h)
                   = Inr [''Accept'' \<mapsto> [''text/html'', ''*/*''], ''X-Nil'' \<mapsto> []]"
    by (simp add: HeaderMap_of_def fun_eq_iff)
  have d1: "decode_multi (JString ''x'') = None" and d2: "decode_single (JString ''x'') = None"
    and d3: "decode_list (JString ''x'') = None"
    by simp_all
  have d4: "UnmarshalJSON (JString ''x'') = Inl ''unsupported header format''"
    by (simp add: UnmarshalJSON_def)
  show ?thesis
    by (intro conjI a1 a2 a3 b1 b2 b3 b4 c1 c3 c2 d1 d2 d3 d4)
qed

end
